theory Spec2Isabelle
  imports Complex_Main "HOL-Library.Sublist"
begin

section \<open>JavaScript strings and arrays\<close>

text \<open>
  Strings are \<^typ>\<open>string\<close>; the characters are the code units below 256. The class
  \<^verbatim>\<open>\s\<close> of a regular expression and the characters removed by \<^verbatim>\<open>trim()\<close> are, in that
  range, tab, line feed, vertical tab, form feed, carriage return, space and the
  no-break space.
\<close>

definition is_space :: "char \<Rightarrow> bool" where
  "is_space c = (c \<in> set [CHR 0x09, CHR 0x0A, CHR 0x0B, CHR 0x0C, CHR 0x0D, CHR 0x20, CHR 0xA0])"

text \<open>
  \<^verbatim>\<open>s.split(/\s+/)\<close>: the pieces between the maximal runs of white space. A leading or a
  trailing run leaves an empty first or last piece, and the empty string splits into one
  empty piece.
\<close>

function split_ws :: "string \<Rightarrow> string list" where
  "split_ws s =
     (let w = takeWhile (\<lambda>c. \<not> is_space c) s;
          r = dropWhile (\<lambda>c. \<not> is_space c) s
      in if r = [] then [w] else w # split_ws (dropWhile is_space r))"
  by pat_completeness auto
termination
proof (relation "measure length")
  fix s :: string and w r
  assume r: "r = dropWhile (\<lambda>c. \<not> is_space c) s" and ne: "r \<noteq> []"
  have "length (dropWhile is_space r) < length r"
  proof (cases r)
    case Nil
    with ne show ?thesis by simp
  next
    case (Cons c cs)
    with r have "is_space c"
      by (metis hd_dropWhile list.sel(1) ne)
    with Cons show ?thesis
      by (simp add: le_imp_less_Suc length_dropWhile_le)
  qed
  moreover have "length r \<le> length s"
    unfolding r by (rule length_dropWhile_le)
  ultimately show "(dropWhile is_space r, s) \<in> measure length"
    by simp
qed simp

declare split_ws.simps [simp del]

text \<open>\<^verbatim>\<open>s.trim()\<close>.\<close>

definition trim :: "string \<Rightarrow> string" where
  "trim s = rev (dropWhile is_space (rev (dropWhile is_space s)))"

text \<open>\<^verbatim>\<open>xs.join(sep)\<close>.\<close>

fun join :: "string \<Rightarrow> string list \<Rightarrow> string" where
  "join sep [] = []"
| "join sep [x] = x"
| "join sep (x # y # ys) = x @ sep @ join sep (y # ys)"

text \<open>
  \<^verbatim>\<open>xs.slice(start, end)\<close>: a negative index counts from the end, and both indices are
  clamped to the array.
\<close>

definition js_slice :: "'a list \<Rightarrow> int \<Rightarrow> int \<Rightarrow> 'a list" where
  "js_slice xs start end =
     (let len = int (length xs);
          k = (if start < 0 then max (len + start) 0 else min start len);
          e = (if end < 0 then max (len + end) 0 else min end len)
      in take (nat (e - k)) (drop (nat k) xs))"

text \<open>\<^verbatim>\<open>s.includes(p)\<close> is \<^term>\<open>sublist p s\<close>; \<^verbatim>\<open>[...new Set(xs)]\<close> keeps the first
  occurrence of every element, in order.\<close>

fun js_unique_into :: "'a list \<Rightarrow> 'a list \<Rightarrow> 'a list" where
  "js_unique_into seen [] = seen"
| "js_unique_into seen (x # xs) =
     (if x \<in> set seen then js_unique_into seen xs else js_unique_into (seen @ [x]) xs)"

definition js_unique :: "'a list \<Rightarrow> 'a list" where
  "js_unique xs = js_unique_into [] xs"

text \<open>The decimal digits of a natural number, as \<^verbatim>\<open>String(n)\<close> prints it.\<close>

fun string_of_nat :: "nat \<Rightarrow> string" where
  "string_of_nat n =
     (if n < 10 then [''0123456789'' ! n]
      else string_of_nat (n div 10) @ [''0123456789'' ! (n mod 10)])"

declare string_of_nat.simps [simp del]

section \<open>Data model\<close>

text \<open>
  \<^verbatim>\<open>new URL(s)\<close> belongs to the platform, not to the repository: the functions that call
  it take the parser as a parameter. It returns \<^term>\<open>None\<close> where the constructor throws.
\<close>

record parsed_url =
  href :: string
  hostname :: string
  pathname :: string
  search :: string
  hash :: string

type_synonym url_parser = "string \<Rightarrow> parsed_url option"

text \<open>\<^verbatim>\<open>AppError(message, statusCode)\<close>.\<close>

datatype app_error = AppError string nat

record heading =
  level :: int
  heading_text :: string
  heading_id :: "string option"

record image =
  src :: string
  alt :: "string option"
  img_title :: "string option"

record page_metadata =
  description :: string
  meta_keywords :: "string list"
  author :: string
  publishDate :: string
  lastModified :: string
  canonical :: string
  language :: string
  contentType :: string
  wordCount :: nat
  links_internal :: "string list"
  links_external :: "string list"
  images :: "image list"
  headings :: "heading list"

text \<open>\<^verbatim>\<open>CrawledPage\<close>; \<open>crawledAt\<close> is the instant in milliseconds.\<close>

record crawled_page =
  url :: string
  title :: string
  content :: string
  metadata :: page_metadata
  crawledAt :: nat
  status :: nat
  depth :: int

text \<open>\<^verbatim>\<open>TextChunk\<close> and its metadata; an optional field that is left out is \<^term>\<open>None\<close>.\<close>

record chunk_metadata =
  m_url :: string
  m_title :: string
  chunkIndex :: nat
  totalChunks :: nat
  m_wordCount :: nat
  m_section :: "string option"
  headingLevel :: "int option"
  pageDepth :: int
  domain :: string
  m_crawledAt :: nat
  m_description :: "string option"
  m_language :: "string option"
  m_author :: "string option"
  m_canonical :: "string option"

record text_chunk =
  c_content :: string
  c_metadata :: chunk_metadata

text \<open>\<^verbatim>\<open>s && { field: s }\<close>: the field is present when the string is not empty.\<close>

definition truthy_str :: "string \<Rightarrow> string option" where
  "truthy_str s = (if s = [] then None else Some s)"

section \<open>Chunker\<close>

text \<open>
  \<^verbatim>\<open>VectorService.chunkText\<close>. The loop
  \<^verbatim>\<open>for (let i = 0; i < words.length; i += chunkSize - overlap)\<close> does not end when the step
  is not positive, so it is a partial function: \<^term>\<open>None\<close> is a call that never returns.
\<close>

partial_function (option) chunk_loop ::
  "string list \<Rightarrow> int \<Rightarrow> int \<Rightarrow> int \<Rightarrow> string list \<Rightarrow> string list option" where
  "chunk_loop words chunkSize overlap i chunks =
     (if i < int (length words) then
        (let chunk = join '' '' (js_slice words i (i + chunkSize))
         in chunk_loop words chunkSize overlap (i + (chunkSize - overlap))
              (if trim chunk \<noteq> [] then chunks @ [trim chunk] else chunks))
      else Some chunks)"

definition chunkText :: "string \<Rightarrow> int \<Rightarrow> int \<Rightarrow> string list option" where
  "chunkText text chunkSize overlap =
     (case chunk_loop (split_ws text) chunkSize overlap 0 [] of
        None \<Rightarrow> None
      | Some chunks \<Rightarrow> Some (if length chunks > 0 then chunks else [text]))"

text \<open>\<^verbatim>\<open>VectorService.findRelevantHeading\<close>: the first heading of the page, whatever the
  position.\<close>

definition findRelevantHeading :: "crawled_page \<Rightarrow> int \<Rightarrow> heading option" where
  "findRelevantHeading page position =
     (case headings (metadata page) of [] \<Rightarrow> None | h # _ \<Rightarrow> Some h)"

definition make_chunk ::
  "crawled_page \<Rightarrow> string \<Rightarrow> int \<Rightarrow> int \<Rightarrow> nat \<Rightarrow> nat \<Rightarrow> string \<Rightarrow> text_chunk" where
  "make_chunk page host chunkSize chunkOverlap n_chunks index chunkContent =
     (let chunkPosition = int index * (chunkSize - chunkOverlap);
          relevantHeading = findRelevantHeading page chunkPosition
      in \<lparr> c_content = chunkContent,
           c_metadata = \<lparr>
             m_url = url page,
             m_title = title page,
             chunkIndex = index,
             totalChunks = n_chunks,
             m_wordCount = length (split_ws chunkContent),
             m_section = (case relevantHeading of None \<Rightarrow> None | Some h \<Rightarrow> truthy_str (heading_text h)),
             headingLevel = (case relevantHeading of None \<Rightarrow> None
                             | Some h \<Rightarrow> if level h = 0 then None else Some (level h)),
             pageDepth = depth page,
             domain = host,
             m_crawledAt = crawledAt page,
             m_description = truthy_str (description (metadata page)),
             m_language = truthy_str (language (metadata page)),
             m_author = truthy_str (author (metadata page)),
             m_canonical = truthy_str (canonical (metadata page)) \<rparr> \<rparr>)"

text \<open>
  \<^verbatim>\<open>VectorService.processIntoChunks\<close>. A page whose URL does not parse throws inside the
  \<^verbatim>\<open>try\<close> and is skipped; the text of a page is its title, two line feeds and its content.
\<close>

definition page_chunks :: "url_parser \<Rightarrow> crawled_page \<Rightarrow> int \<Rightarrow> int \<Rightarrow> text_chunk list option" where
  "page_chunks P page chunkSize chunkOverlap =
     (case P (url page) of
        None \<Rightarrow> Some []
      | Some u \<Rightarrow>
          (let fullText = title page @ [CHR 0x0A, CHR 0x0A] @ content page
           in case chunkText fullText chunkSize chunkOverlap of
                None \<Rightarrow> None
              | Some pageChunks \<Rightarrow>
                  Some (map (\<lambda>(index, chunkContent).
                          make_chunk page (hostname u) chunkSize chunkOverlap
                            (length pageChunks) index chunkContent)
                        (enumerate 0 pageChunks))))"

fun processIntoChunks_from ::
  "url_parser \<Rightarrow> crawled_page list \<Rightarrow> int \<Rightarrow> int \<Rightarrow> text_chunk list \<Rightarrow> text_chunk list option" where
  "processIntoChunks_from P [] chunkSize chunkOverlap chunks = Some chunks"
| "processIntoChunks_from P (page # pages) chunkSize chunkOverlap chunks =
     (case page_chunks P page chunkSize chunkOverlap of
        None \<Rightarrow> None
      | Some cs \<Rightarrow> processIntoChunks_from P pages chunkSize chunkOverlap (chunks @ cs))"

definition processIntoChunks ::
  "url_parser \<Rightarrow> crawled_page list \<Rightarrow> int \<Rightarrow> int \<Rightarrow> text_chunk list option" where
  "processIntoChunks P pages chunkSize chunkOverlap =
     processIntoChunks_from P pages chunkSize chunkOverlap []"

text \<open>A word as the tokenizer returns it inside a text: not empty, no white space.\<close>

definition plain_word :: "string \<Rightarrow> bool" where
  "plain_word w = (w \<noteq> [] \<and> (\<forall>c \<in> set w. \<not> is_space c))"

text \<open>The start indices the loop visits when its step is positive.\<close>

function window_starts :: "int \<Rightarrow> int \<Rightarrow> int \<Rightarrow> int list" where
  "window_starts i n step =
     (if 0 < step \<and> i < n then i # window_starts (i + step) n step else [])"
  by pat_completeness auto
termination
  by (relation "measure (\<lambda>(i, n, step). nat (n - i))") auto

declare window_starts.simps [simp del]

definition window_chunks :: "string list \<Rightarrow> int \<Rightarrow> int list \<Rightarrow> string list" where
  "window_chunks words chunkSize starts =
     filter (\<lambda>c. c \<noteq> [])
       (map (\<lambda>i. trim (join '' '' (js_slice words i (i + chunkSize)))) starts)"

section \<open>Crawler\<close>

text \<open>\<^verbatim>\<open>CrawlRequest\<close>: an optional field that is absent is \<^term>\<open>None\<close>.\<close>

record crawl_request =
  req_url :: string
  req_maxDepth :: "int option"
  req_maxPages :: "int option"
  req_delay :: "int option"
  req_includePatterns :: "string list option"
  req_excludePatterns :: "string list option"
  req_followExternalLinks :: "bool option"

record web_crawler_config =
  maxDepth :: int
  maxPages :: int
  delay :: int
  timeout :: int
  userAgent :: string
  allowedDomains :: "string list"
  excludePatterns :: "string list"
  includePatterns :: "string list"
  followExternalLinks :: bool
  respectRobotsTxt :: bool
  maxConcurrent :: int

definition defaultConfig :: web_crawler_config where
  "defaultConfig =
     \<lparr> maxDepth = 3, maxPages = 50, delay = 1000, timeout = 30000,
       userAgent = ''ProfessionalWebCrawler/1.0 (+https://example.com/bot)'',
       allowedDomains = [],
       excludePatterns =
         [''/search?'', ''/404'', ''/login'', ''/register'', ''/admin'', ''.pdf'', ''.doc'',
          ''.docx'', ''.xls'', ''.xlsx'', ''.ppt'', ''.pptx'', ''.zip'', ''.rar'', ''.tar'',
          ''.gz'', ''.jpg'', ''.jpeg'', ''.png'', ''.gif'', ''.svg'', ''.ico'', ''.css'',
          ''.js'', ''.woff'', ''.woff2'', ''.ttf'', ''.eot''],
       includePatterns = [], followExternalLinks = False, respectRobotsTxt = True,
       maxConcurrent = 3 \<rparr>"

text \<open>\<^verbatim>\<open>x || d\<close> on an optional number: the default replaces an absent value and 0.\<close>

definition or_default :: "int option \<Rightarrow> int \<Rightarrow> int" where
  "or_default x d = (case x of None \<Rightarrow> d | Some n \<Rightarrow> if n = 0 then d else n)"

definition mergeConfig :: "crawl_request \<Rightarrow> web_crawler_config" where
  "mergeConfig request =
     defaultConfig
       \<lparr> maxDepth := or_default (req_maxDepth request) (maxDepth defaultConfig),
         maxPages := or_default (req_maxPages request) (maxPages defaultConfig),
         delay := or_default (req_delay request) (delay defaultConfig),
         excludePatterns :=
           (case req_excludePatterns request of
              None \<Rightarrow> excludePatterns defaultConfig | Some ps \<Rightarrow> ps),
         includePatterns :=
           (case req_includePatterns request of
              None \<Rightarrow> includePatterns defaultConfig | Some ps \<Rightarrow> ps),
         followExternalLinks :=
           (case req_followExternalLinks request of
              None \<Rightarrow> followExternalLinks defaultConfig | Some b \<Rightarrow> b) \<rparr>"

text \<open>
  \<^verbatim>\<open>normalizeUrl\<close>: the serialized URL without its fragment, which starts at the first
  \<^verbatim>\<open>#\<close> of a serialized URL.
\<close>

definition strip_fragment :: "string \<Rightarrow> string" where
  "strip_fragment s = takeWhile (\<lambda>c. c \<noteq> CHR ''#'') s"

definition normalizeUrl :: "url_parser \<Rightarrow> string \<Rightarrow> app_error + string" where
  "normalizeUrl P u =
     (case P u of
        None \<Rightarrow> Inl (AppError ''Invalid URL provided'' 400)
      | Some urlObj \<Rightarrow> Inr (strip_fragment (href urlObj)))"

text \<open>
  The network and the HTML parser are outside the repository. A request for a URL either
  throws (an HTTP status of 400 or more, a network error, an error while the page is
  read), or answers with something that is not HTML, or answers with a document, given
  here by what the selectors of \<^verbatim>\<open>extractPageData\<close> find in it. Every URL is requested
  at most once in a crawl, so the web is a function of the URL.
\<close>

record html_document =
  doc_title :: string
  doc_content :: string
  doc_metadata :: page_metadata
  doc_crawledAt :: nat
  doc_status :: nat

datatype fetch_result = Html html_document | NonHtml | Failed string "nat option"

type_synonym web = "string \<Rightarrow> fetch_result"

definition extractPageData :: "html_document \<Rightarrow> string \<Rightarrow> int \<Rightarrow> crawled_page" where
  "extractPageData doc u d =
     \<lparr> url = u, title = doc_title doc, content = doc_content doc,
       metadata = doc_metadata doc, crawledAt = doc_crawledAt doc,
       status = doc_status doc, depth = d \<rparr>"

record crawl_error =
  err_url :: string
  err_error :: string
  err_status :: "nat option"

record queue_item =
  q_url :: string
  q_depth :: int

text \<open>
  \<^verbatim>\<open>crawlSinglePage\<close>, with the visited set and the error list passed through. The status
  of an error entry is left out when it is absent or 0.
\<close>

definition error_entry :: "string \<Rightarrow> string \<Rightarrow> nat option \<Rightarrow> crawl_error" where
  "error_entry u errorMsg st =
     \<lparr> err_url = u, err_error = errorMsg,
       err_status = (case st of None \<Rightarrow> None | Some n \<Rightarrow> if n = 0 then None else Some n) \<rparr>"

definition crawlSinglePage ::
  "web \<Rightarrow> string \<Rightarrow> int \<Rightarrow> string set \<Rightarrow> crawl_error list \<Rightarrow>
     crawled_page option \<times> string set \<times> crawl_error list" where
  "crawlSinglePage fetch u d visitedUrls errs =
     (if u \<in> visitedUrls then (None, visitedUrls, errs)
      else
        (case fetch u of
           Failed errorMsg st \<Rightarrow> (None, insert u visitedUrls, errs @ [error_entry u errorMsg st])
         | NonHtml \<Rightarrow> (None, insert u visitedUrls, errs)
         | Html doc \<Rightarrow> (Some (extractPageData doc u d), insert u visitedUrls, errs)))"

text \<open>What a first visit of a URL at a depth returns.\<close>

definition page_of_fetch :: "web \<Rightarrow> string \<Rightarrow> int \<Rightarrow> crawled_page option" where
  "page_of_fetch W u d =
     (case W u of Html doc \<Rightarrow> Some (extractPageData doc u d) | _ \<Rightarrow> None)"

text \<open>
  \<^verbatim>\<open>extractUrls\<close>. The callback of \<^verbatim>\<open>excludePatterns.some\<close> parses the URL of the page for
  the pattern \<^verbatim>\<open>#\<close>; if that throws, the \<^verbatim>\<open>catch\<close> of the loop body skips the link
  (\<^term>\<open>None\<close> below). The parameter \<^verbatim>\<open>_baseDomain\<close> is not used by the source.
\<close>

fun should_exclude ::
  "url_parser \<Rightarrow> string \<Rightarrow> parsed_url \<Rightarrow> string \<Rightarrow> string list \<Rightarrow> bool option" where
  "should_exclude P pageUrl linkUrl link [] = Some False"
| "should_exclude P pageUrl linkUrl link (pattern # patterns) =
     (if pattern = ''?'' then
        (if sublist ''search='' (search linkUrl) \<or> sublist ''q='' (search linkUrl) \<or>
            sublist ''query='' (search linkUrl)
         then Some True
         else should_exclude P pageUrl linkUrl link patterns)
      else if pattern = ''#'' then
        (case P pageUrl of
           None \<Rightarrow> None
         | Some currentUrl \<Rightarrow>
             if length (hash linkUrl) > 0 \<and> pathname linkUrl = pathname currentUrl \<and>
                search linkUrl = search currentUrl
             then Some True
             else should_exclude P pageUrl linkUrl link patterns)
      else if sublist pattern (pathname linkUrl) \<or> sublist pattern link then Some True
      else should_exclude P pageUrl linkUrl link patterns)"

definition should_include :: "parsed_url \<Rightarrow> string \<Rightarrow> string list \<Rightarrow> bool" where
  "should_include linkUrl link patterns =
     list_ex (\<lambda>pattern. sublist pattern (pathname linkUrl) \<or> sublist pattern link) patterns"

definition keep_link ::
  "url_parser \<Rightarrow> crawled_page \<Rightarrow> web_crawler_config \<Rightarrow> string \<Rightarrow> string option" where
  "keep_link P page config link =
     (case P link of
        None \<Rightarrow> None
      | Some linkUrl \<Rightarrow>
          if length (allowedDomains config) > 0 \<and>
             hostname linkUrl \<notin> set (allowedDomains config) then None
          else
            (case should_exclude P (url page) linkUrl link (excludePatterns config) of
               None \<Rightarrow> None
             | Some True \<Rightarrow> None
             | Some False \<Rightarrow>
                 if length (includePatterns config) > 0 \<and>
                    \<not> should_include linkUrl link (includePatterns config) then None
                 else
                   (let cleanUrl = strip_fragment link
                    in if cleanUrl \<noteq> [] then Some cleanUrl else None)))"

definition links_to_process :: "crawled_page \<Rightarrow> web_crawler_config \<Rightarrow> string list" where
  "links_to_process page config =
     (if followExternalLinks config
      then links_internal (metadata page) @ links_external (metadata page)
      else links_internal (metadata page))"

definition extractUrls :: "url_parser \<Rightarrow> crawled_page \<Rightarrow> web_crawler_config \<Rightarrow> string list" where
  "extractUrls P page config =
     js_unique (List.map_filter (keep_link P page config) (links_to_process page config))"

text \<open>
  One round of the loop of \<^verbatim>\<open>crawlDocumentation\<close>. The calls of \<^verbatim>\<open>crawlSinglePage\<close> for a
  batch are started in order, and each one tests and extends the visited set before its
  request is sent; the requests then run together. The error entries of one batch are
  listed here in batch order (the source appends them as the requests fail). The delays
  between requests and between batches are not modelled.
\<close>

fun crawl_batch ::
  "web \<Rightarrow> queue_item list \<Rightarrow> string set \<Rightarrow> crawl_error list \<Rightarrow>
     crawled_page option list \<times> string set \<times> crawl_error list" where
  "crawl_batch fetch [] visitedUrls errs = ([], visitedUrls, errs)"
| "crawl_batch fetch (item # items) visitedUrls errs =
     (case crawlSinglePage fetch (q_url item) (q_depth item) visitedUrls errs of
        (r, visited', errs') \<Rightarrow>
          (case crawl_batch fetch items visited' errs' of
             (rs, visited'', errs'') \<Rightarrow> (r # rs, visited'', errs'')))"

fun enqueue_urls ::
  "web_crawler_config \<Rightarrow> string set \<Rightarrow> nat \<Rightarrow> int \<Rightarrow> string list \<Rightarrow> queue_item list \<Rightarrow>
     queue_item list" where
  "enqueue_urls config visitedUrls n_pages d [] urlQueue = urlQueue"
| "enqueue_urls config visitedUrls n_pages d (newUrl # newUrls) urlQueue =
     enqueue_urls config visitedUrls n_pages d newUrls
       (if newUrl \<notin> visitedUrls \<and> int n_pages + int (length urlQueue) < maxPages config
        then urlQueue @ [\<lparr> q_url = newUrl, q_depth = d + 1 \<rparr>]
        else urlQueue)"

fun settle_results ::
  "url_parser \<Rightarrow> web_crawler_config \<Rightarrow> string set \<Rightarrow>
     (queue_item \<times> crawled_page option) list \<Rightarrow> crawled_page list \<Rightarrow> queue_item list \<Rightarrow>
     crawled_page list \<times> queue_item list" where
  "settle_results P config visitedUrls [] crawledPages urlQueue = (crawledPages, urlQueue)"
| "settle_results P config visitedUrls ((batchItem, None) # rest) crawledPages urlQueue =
     settle_results P config visitedUrls rest crawledPages urlQueue"
| "settle_results P config visitedUrls ((batchItem, Some page) # rest) crawledPages urlQueue =
     settle_results P config visitedUrls rest (crawledPages @ [page])
       (if q_depth batchItem < maxDepth config
        then enqueue_urls config visitedUrls (length (crawledPages @ [page]))
               (q_depth batchItem) (extractUrls P page config) urlQueue
        else urlQueue)"

record crawl_state =
  visitedUrls :: "string set"
  crawledPages :: "crawled_page list"
  errors :: "crawl_error list"
  urlQueue :: "queue_item list"

definition crawl_step ::
  "url_parser \<Rightarrow> web \<Rightarrow> web_crawler_config \<Rightarrow> crawl_state \<Rightarrow> crawl_state" where
  "crawl_step P fetch config st =
     (let batch = take (nat (maxConcurrent config)) (urlQueue st);
          remaining = drop (nat (maxConcurrent config)) (urlQueue st)
      in case crawl_batch fetch batch (visitedUrls st) (errors st) of
           (results, visited', errs') \<Rightarrow>
             (case settle_results P config visited' (zip batch results)
                     (crawledPages st) remaining of
                (pages', queue') \<Rightarrow>
                  \<lparr> visitedUrls = visited', crawledPages = pages', errors = errs',
                    urlQueue = queue' \<rparr>))"

definition crawl_continues :: "web_crawler_config \<Rightarrow> crawl_state \<Rightarrow> bool" where
  "crawl_continues config st =
     (length (urlQueue st) > 0 \<and> int (length (crawledPages st)) < maxPages config)"

text \<open>The loop itself. A batch size below 1 would never empty the queue, so the loop is
  a partial function; \<^term>\<open>None\<close> is a crawl that never returns.\<close>

partial_function (option) crawl_loop ::
  "url_parser \<Rightarrow> web \<Rightarrow> web_crawler_config \<Rightarrow> crawl_state \<Rightarrow> crawl_state option" where
  "crawl_loop parse fetch config st =
     (if crawl_continues config st
      then crawl_loop parse fetch config (crawl_step parse fetch config st)
      else Some st)"



text \<open>Invariants of the loop: the collected pages have distinct URLs, all of them visited;
  every URL of the queue and of a page parses; the error list holds an entry for exactly the
  visited URLs whose request failed; no queued or collected depth is above \<open>maxDepth\<close>.\<close>

definition pages_distinct :: "crawl_state \<Rightarrow> bool" where
  "pages_distinct st =
     (distinct (map url (crawledPages st)) \<and> url ` set (crawledPages st) \<subseteq> visitedUrls st)"

definition urls_parse :: "url_parser \<Rightarrow> crawl_state \<Rightarrow> bool" where
  "urls_parse P st =
     ((\<forall>q \<in> set (urlQueue st). P (q_url q) \<noteq> None) \<and>
      (\<forall>p \<in> set (crawledPages st). P (url p) \<noteq> None))"

definition errors_recorded :: "web \<Rightarrow> crawl_state \<Rightarrow> bool" where
  "errors_recorded W st =
     (set (errors st) =
        {error_entry u m s | u m s. u \<in> visitedUrls st \<and> W u = Failed m s})"

definition depth_bounded :: "web_crawler_config \<Rightarrow> crawl_state \<Rightarrow> bool" where
  "depth_bounded cfg st =
     ((\<forall>q \<in> set (urlQueue st). q_depth q \<le> maxDepth cfg) \<and>
      (\<forall>p \<in> set (crawledPages st). depth p \<le> maxDepth cfg))"

text \<open>\<^verbatim>\<open>Math.max(...xs)\<close> is \<open>-Infinity\<close> for no argument.\<close>

datatype js_max = MinusInfinity | Finite int

definition math_max :: "int list \<Rightarrow> js_max" where
  "math_max xs = (case xs of [] \<Rightarrow> MinusInfinity | x # rest \<Rightarrow> Finite (fold max rest x))"

text \<open>The result; the duration, read from the clock, is left out.\<close>

record crawl_summary =
  totalPages :: nat
  totalWords :: nat
  crawlDepth :: js_max
  uniqueDomains :: "string list"
  summary_errors :: "crawl_error list"

record crawl_result =
  success :: bool
  message :: string
  pages :: "crawled_page list"
  summary :: crawl_summary

text \<open>\<^verbatim>\<open>crawledPages.map(page => new URL(page.url).hostname)\<close>, which throws if a URL does not
  parse.\<close>

fun page_hostnames :: "url_parser \<Rightarrow> crawled_page list \<Rightarrow> string list option" where
  "page_hostnames P [] = Some []"
| "page_hostnames P (page # rest) =
     (case P (url page) of
        None \<Rightarrow> None
      | Some u \<Rightarrow> map_option ((#) (hostname u)) (page_hostnames P rest))"

definition crawl_failed :: app_error where
  "crawl_failed = AppError ''Failed to crawl documentation'' 500"

definition summarize :: "url_parser \<Rightarrow> crawl_state \<Rightarrow> app_error + crawl_result" where
  "summarize P st =
     (let totalWords = sum_list (map (\<lambda>page. wordCount (metadata page)) (crawledPages st))
      in case page_hostnames P (crawledPages st) of
           None \<Rightarrow> Inl crawl_failed
         | Some hosts \<Rightarrow>
             Inr \<lparr> success = True,
                   message = ''Successfully crawled '' @
                             string_of_nat (length (crawledPages st)) @ '' pages'',
                   pages = crawledPages st,
                   summary = \<lparr> totalPages = length (crawledPages st),
                               totalWords = totalWords,
                               crawlDepth = math_max (map depth (crawledPages st)),
                               uniqueDomains = js_unique hosts,
                               summary_errors = errors st \<rparr> \<rparr>)"

text \<open>
  \<^verbatim>\<open>crawlDocumentation\<close>: whatever is thrown inside its \<^verbatim>\<open>try\<close> is replaced by the error
  \<open>Failed to crawl documentation\<close>.
\<close>

definition initial_state :: "string \<Rightarrow> crawl_state" where
  "initial_state baseUrl =
     \<lparr> visitedUrls = {}, crawledPages = [], errors = [],
       urlQueue = [\<lparr> q_url = baseUrl, q_depth = 0 \<rparr>] \<rparr>"

definition crawlDocumentation ::
  "url_parser \<Rightarrow> web \<Rightarrow> crawl_request \<Rightarrow> (app_error + crawl_result) option" where
  "crawlDocumentation P fetch request =
     (let config = mergeConfig request
      in case normalizeUrl P (req_url request) of
           Inl e \<Rightarrow> Some (Inl crawl_failed)
         | Inr baseUrl \<Rightarrow>
             (case P baseUrl of
                None \<Rightarrow> Some (Inl crawl_failed)
              | Some base \<Rightarrow>
                  (let baseDomain = hostname base;
                       config' = (if length (allowedDomains config) = 0
                                  then config \<lparr> allowedDomains := [baseDomain] \<rparr>
                                  else config)
                   in case crawl_loop P fetch config' (initial_state baseUrl) of
                        None \<Rightarrow> None
                      | Some st \<Rightarrow> Some (summarize P st))))"

section \<open>Embedder and vector store client\<close>

record vector_service_config =
  cfg_chunkSize :: int
  cfg_chunkOverlap :: int
  embeddingModel :: string
  embeddingDimensions :: nat
  maxRetries :: nat
  batchSize :: nat

definition vectorDefaultConfig :: vector_service_config where
  "vectorDefaultConfig =
     \<lparr> cfg_chunkSize = 1000, cfg_chunkOverlap = 200,
       embeddingModel = ''text-embedding-3-small'', embeddingDimensions = 512,
       maxRetries = 3, batchSize = 100 \<rparr>"

text \<open>\<^verbatim>\<open>VectorEmbedding\<close>: the metadata of the chunk and, beside it, the stored content.\<close>

record vector_embedding =
  v_id :: string
  v_values :: "real list"
  v_metadata :: chunk_metadata
  v_content :: string

text \<open>
  The process environment: the API keys and the index name of the configuration, and
  whether the clients that the service caches have been built already.
\<close>

record service_env =
  openai_client :: bool
  openai_apiKey :: string
  pinecone_client :: bool
  pinecone_apiKey :: string
  pinecone_indexName :: string

definition initializeOpenAI :: "service_env \<Rightarrow> app_error + unit" where
  "initializeOpenAI env =
     (if \<not> openai_client env \<and> openai_apiKey env = []
      then Inl (AppError ''OpenAI API key is required'' 500) else Inr ())"

definition initializePinecone :: "service_env \<Rightarrow> app_error + unit" where
  "initializePinecone env =
     (if \<not> pinecone_client env \<and> pinecone_apiKey env = []
      then Inl (AppError ''Pinecone API key is required'' 500) else Inr ())"

text \<open>
  The embedding provider, outside the repository: the call with a given number (from 0),
  model and inputs either throws or answers with a list whose entries are usable
  embeddings or not. The clock gives the instant read while the chunk at a given position
  of the input is handled.
\<close>

datatype embed_reply = EmbedThrows | EmbedData "real list option list"

type_synonym embed_provider = "nat \<Rightarrow> string \<Rightarrow> string list \<Rightarrow> embed_reply"

definition is_alnum :: "char \<Rightarrow> bool" where
  "is_alnum c =
     (let n = (of_char c :: nat)
      in (48 \<le> n \<and> n \<le> 57) \<or> (65 \<le> n \<and> n \<le> 90) \<or> (97 \<le> n \<and> n \<le> 122))"

text \<open>\<^verbatim>\<open>s.slice(-8)\<close>.\<close>

definition last8 :: "string \<Rightarrow> string" where
  "last8 s = drop (length s - 8) s"

text \<open>\<^verbatim>\<open>generateVectorId\<close>; \<^term>\<open>None\<close> when the URL of the chunk does not parse and the
  constructor throws.\<close>

definition generateVectorId :: "url_parser \<Rightarrow> nat \<Rightarrow> text_chunk \<Rightarrow> string option" where
  "generateVectorId P now chunk =
     (case P (m_url (c_metadata chunk)) of
        None \<Rightarrow> None
      | Some u \<Rightarrow>
          (let cleanHostname = map (\<lambda>c. if is_alnum c then c else CHR ''_'') (hostname u);
               cleanPath = map (\<lambda>c. if is_alnum c then c else CHR ''_'') (pathname u);
               baseId = cleanHostname @ cleanPath @ ''_chunk_'' @
                          string_of_nat (chunkIndex (c_metadata chunk));
               timestamp = last8 (string_of_nat now);
               vectorId = baseId @ ''_'' @ timestamp
           in Some (map (\<lambda>c. if is_alnum c \<or> c = CHR ''_'' \<or> c = CHR ''-'' then c
                                else CHR ''_'')
                      (take 512 vectorId))))"

text \<open>
  The callback of \<^verbatim>\<open>batch.forEach\<close> in \<^verbatim>\<open>generateEmbeddings\<close>, over the chunks of a batch
  from the given index on; \<open>i\<close> is the position of the batch in the input. \<^term>\<open>None\<close> where
  \<^verbatim>\<open>generateVectorId\<close> throws.
\<close>

fun embed_batch ::
  "url_parser \<Rightarrow> (nat \<Rightarrow> nat) \<Rightarrow> real list option list \<Rightarrow> nat \<Rightarrow> nat \<Rightarrow> text_chunk list \<Rightarrow>
     vector_embedding list \<Rightarrow> vector_embedding list option" where
  "embed_batch P clock reply_data i index [] embeddings = Some embeddings"
| "embed_batch P clock reply_data i index (chunk # rest) embeddings =
     (case (if index < length reply_data then reply_data ! index else None) of
        None \<Rightarrow> embed_batch P clock reply_data i (index + 1) rest embeddings
      | Some embedding \<Rightarrow>
          (case generateVectorId P (clock (i + index)) chunk of
             None \<Rightarrow> None
           | Some vectorId \<Rightarrow>
               if vectorId = [] \<or> length vectorId > 512
               then embed_batch P clock reply_data i (index + 1) rest embeddings
               else embed_batch P clock reply_data i (index + 1) rest
                      (embeddings @
                         [\<lparr> v_id = vectorId, v_values = embedding,
                            v_metadata = c_metadata chunk,
                            v_content = take 40000 (c_content chunk) \<rparr>])))"

definition embeddings_failed :: app_error where
  "embeddings_failed = AppError ''Failed to generate embeddings'' 500"

text \<open>The loop over the batches, with the inputs of the provider calls made so far.\<close>

function embed_loop ::
  "url_parser \<Rightarrow> embed_provider \<Rightarrow> (nat \<Rightarrow> nat) \<Rightarrow> string \<Rightarrow> text_chunk list \<Rightarrow> nat \<Rightarrow>
     vector_embedding list \<Rightarrow> string list list \<Rightarrow>
     string list list \<times> (app_error + vector_embedding list)" where
  "embed_loop P provider clock model chunks i embeddings calls =
     (if i < length chunks then
        (let batch = take (batchSize vectorDefaultConfig) (drop i chunks);
             batchTexts = map c_content batch
         in case provider (length calls) model batchTexts of
              EmbedThrows \<Rightarrow> (calls @ [batchTexts], Inl embeddings_failed)
            | EmbedData reply_data \<Rightarrow>
                (case embed_batch P clock reply_data i 0 batch embeddings of
                   None \<Rightarrow> (calls @ [batchTexts], Inl embeddings_failed)
                 | Some embeddings' \<Rightarrow>
                     embed_loop P provider clock model chunks
                       (i + batchSize vectorDefaultConfig) embeddings' (calls @ [batchTexts])))
      else (calls, Inr embeddings))"
  by pat_completeness auto
termination
  by (relation "measure (\<lambda>(P, provider, clock, model, chunks, i, embeddings, calls).
                  length chunks - i)")
     (auto simp: vectorDefaultConfig_def)

declare embed_loop.simps [simp del]

text \<open>\<^verbatim>\<open>generateEmbeddings\<close>: the inputs of the provider calls it made, and what it returns
  or throws.\<close>

definition generateEmbeddings ::
  "url_parser \<Rightarrow> service_env \<Rightarrow> embed_provider \<Rightarrow> (nat \<Rightarrow> nat) \<Rightarrow> string \<Rightarrow> text_chunk list \<Rightarrow>
     string list list \<times> (app_error + vector_embedding list)" where
  "generateEmbeddings P env provider clock model chunks =
     (case initializeOpenAI env of
        Inl e \<Rightarrow> ([], Inl e)
      | Inr _ \<Rightarrow> embed_loop P provider clock model chunks 0 [] [])"

text \<open>
  The index provider: the upsert with a given number, namespace and batch succeeds or
  throws. \<^verbatim>\<open>storeVectors\<close> returns the batches it has stored and what it returns or
  throws; a vector without id or values makes it throw before the batch is sent.
\<close>

type_synonym upsert_provider = "nat \<Rightarrow> string option \<Rightarrow> vector_embedding list \<Rightarrow> bool"

definition store_failed :: app_error where
  "store_failed = AppError ''Failed to store vectors in Pinecone'' 500"

function store_loop ::
  "upsert_provider \<Rightarrow> string option \<Rightarrow> vector_embedding list \<Rightarrow> nat \<Rightarrow>
     (string option \<times> vector_embedding list) list \<Rightarrow>
     (string option \<times> vector_embedding list) list \<times> (app_error + unit)" where
  "store_loop upsert namespace embeddings i stored =
     (if i < length embeddings then
        (let batch = take 100 (drop i embeddings)
         in if list_ex (\<lambda>v. v_id v = [] \<or> length (v_values v) = 0) batch
            then (stored, Inl store_failed)
            else if upsert (length stored) namespace batch
            then store_loop upsert namespace embeddings (i + 100) (stored @ [(namespace, batch)])
            else (stored, Inl store_failed))
      else (stored, Inr ()))"
  by pat_completeness auto
termination
  by (relation "measure (\<lambda>(upsert, namespace, embeddings, i, stored). length embeddings - i)")
     auto

declare store_loop.simps [simp del]

definition storeVectors ::
  "service_env \<Rightarrow> upsert_provider \<Rightarrow> vector_embedding list \<Rightarrow> string \<Rightarrow> string option \<Rightarrow>
     (string option \<times> vector_embedding list) list \<times> (app_error + unit)" where
  "storeVectors env upsert embeddings indexName namespace =
     (case initializePinecone env of
        Inl e \<Rightarrow> ([], Inl e)
      | Inr _ \<Rightarrow>
          store_loop upsert (case namespace of None \<Rightarrow> None | Some n \<Rightarrow> truthy_str n)
            embeddings 0 [])"

text \<open>\<^verbatim>\<open>VectorCrawlRequest\<close> extends \<^verbatim>\<open>CrawlRequest\<close>.\<close>

record vector_crawl_request = crawl_request +
  req_indexName :: "string option"
  req_namespace :: "string option"
  req_chunkSize :: "int option"
  req_chunkOverlap :: "int option"

record embeddings_info =
  info_model :: string
  info_dimensions :: nat
  info_totalTokens :: nat

record vector_store_result =
  vs_success :: bool
  vs_message :: string
  vs_indexName :: string
  vs_namespace :: "string option"
  vectorsStored :: nat
  vs_totalChunks :: nat
  crawlSummary :: crawl_summary
  vs_embeddings :: embeddings_info

text \<open>
  \<^verbatim>\<open>crawlAndStore\<close>: the batches stored in the index, and what it returns or throws;
  \<^term>\<open>None\<close> when the chunker never returns. An \<^verbatim>\<open>AppError\<close> is thrown on as it is, and
  any other error becomes \<open>Failed to process and store vectors\<close>.
\<close>

definition crawlAndStore ::
  "url_parser \<Rightarrow> service_env \<Rightarrow> embed_provider \<Rightarrow> upsert_provider \<Rightarrow> (nat \<Rightarrow> nat) \<Rightarrow>
     crawled_page list \<Rightarrow> vector_crawl_request \<Rightarrow>
     ((string option \<times> vector_embedding list) list \<times> (app_error + vector_store_result)) option"
  where
  "crawlAndStore P env provider upsert clock pgs request =
     (case processIntoChunks P pgs
             (or_default (req_chunkSize request) (cfg_chunkSize vectorDefaultConfig))
             (or_default (req_chunkOverlap request) (cfg_chunkOverlap vectorDefaultConfig)) of
        None \<Rightarrow> None
      | Some chunks \<Rightarrow>
          Some
            (if length chunks = 0
             then ([], Inl (AppError ''No text chunks generated from crawled pages'' 400))
             else
               (case snd (generateEmbeddings P env provider clock
                            (embeddingModel vectorDefaultConfig) chunks) of
                  Inl e \<Rightarrow> ([], Inl e)
                | Inr embeddings \<Rightarrow>
                    if length embeddings = 0
                    then ([], Inl (AppError ''No embeddings generated'' 500))
                    else
                      (let indexName =
                             (case req_indexName request of
                                None \<Rightarrow> pinecone_indexName env
                              | Some n \<Rightarrow> if n = [] then pinecone_indexName env else n)
                       in case storeVectors env upsert embeddings indexName
                                 (req_namespace request) of
                            (stored, Inl e) \<Rightarrow> (stored, Inl e)
                          | (stored, Inr _) \<Rightarrow>
                              (case page_hostnames P pgs of
                                 None \<Rightarrow>
                                   (stored,
                                    Inl (AppError ''Failed to process and store vectors'' 500))
                               | Some hosts \<Rightarrow>
                                   (stored,
                                    Inr \<lparr> vs_success = True,
                                          vs_message =
                                            ''Successfully processed and stored '' @
                                            string_of_nat (length embeddings) @
                                            '' vectors from '' @
                                            string_of_nat (length pgs) @ '' pages'',
                                          vs_indexName = indexName,
                                          vs_namespace =
                                            (case req_namespace request of
                                               None \<Rightarrow> None | Some n \<Rightarrow> truthy_str n),
                                          vectorsStored = length embeddings,
                                          vs_totalChunks = length chunks,
                                          crawlSummary =
                                            \<lparr> totalPages = length pgs,
                                              totalWords =
                                                sum_list (map (\<lambda>page. wordCount (metadata page))
                                                            pgs),
                                              crawlDepth = math_max (map depth pgs),
                                              uniqueDomains = js_unique hosts,
                                              summary_errors = [] \<rparr>,
                                          vs_embeddings =
                                            \<lparr> info_model = embeddingModel vectorDefaultConfig,
                                              info_dimensions =
                                                (case embeddings of
                                                   [] \<Rightarrow> embeddingDimensions vectorDefaultConfig
                                                 | v # _ \<Rightarrow>
                                                     if length (v_values v) = 0
                                                     then embeddingDimensions vectorDefaultConfig
                                                     else length (v_values v)),
                                              info_totalTokens =
                                                sum_list (map (\<lambda>chunk. m_wordCount
                                                                 (c_metadata chunk)) chunks)
                                            \<rparr> \<rparr>))))))"

section \<open>Retriever and answer synthesizer\<close>

text \<open>
  \<^verbatim>\<open>RAGMatch\<close> and its metadata, whose fields may all be absent in what the index returns;
  the match of the provider has an optional score, which \<^verbatim>\<open>match.score || 0\<close> replaces by 0.
\<close>

record rag_metadata =
  md_content :: "string option"
  md_title :: "string option"
  md_url :: "string option"
  md_section :: "string option"
  md_source :: "string option"

record provider_match =
  pm_id :: string
  pm_score :: "real option"
  pm_metadata :: "rag_metadata option"

record rag_match =
  match_id :: string
  match_score :: real
  match_metadata :: "rag_metadata option"

text \<open>\<^verbatim>\<open>RAGQueryRequest\<close> and \<^verbatim>\<open>RAGSearchRequest\<close>, which have the same fields.\<close>

record rag_request =
  rq_query :: string
  rq_namespace :: string
  rq_topK :: "int option"
  rq_includeMetadata :: "bool option"
  rq_filter :: "(string \<times> string) list option"

record query_params =
  qp_vector :: "real list"
  qp_topK :: int
  qp_includeMetadata :: bool
  qp_filter :: "(string \<times> string) list option"

record search_response =
  matches :: "rag_match list"
  sr_query :: string
  sr_namespace :: string
  totalMatches :: nat

record query_response =
  answer :: string
  sources :: "rag_match list"
  ans_query :: string
  ans_namespace :: string
  confidence :: real

text \<open>
  The providers, outside the repository: whether the clients can be built, the embedding
  of a query (which throws, or answers with or without an embedding), the query of the
  index in a namespace or in none (which throws, or answers with or without a list of
  matches), and the completion (which throws, or answers with or without a text). The
  processing times, read from the clock, are left out of the results.
\<close>

datatype query_embed_reply = QueryEmbedThrows | QueryEmbedData "real list option"

datatype index_reply = IndexThrows | IndexResponse "provider_match list option"

datatype completion_reply = CompletionThrows | CompletionContent "string option"

record rag_providers =
  clients_ok :: bool
  embed_query :: "string \<Rightarrow> query_embed_reply"
  index_query :: "string option \<Rightarrow> query_params \<Rightarrow> index_reply"
  complete :: "string \<Rightarrow> string \<Rightarrow> completion_reply"

definition generateQueryEmbedding :: "rag_providers \<Rightarrow> string \<Rightarrow> app_error + real list" where
  "generateQueryEmbedding prov q =
     (case embed_query prov q of
        QueryEmbedThrows \<Rightarrow> Inl (AppError ''Failed to generate query embedding'' 500)
      | QueryEmbedData None \<Rightarrow> Inl (AppError ''Failed to generate query embedding'' 500)
      | QueryEmbedData (Some embedding) \<Rightarrow> Inr embedding)"

definition search_failed :: app_error where
  "search_failed = AppError ''Failed to perform vector search'' 500"

definition search_params :: "rag_request \<Rightarrow> real list \<Rightarrow> query_params" where
  "search_params request queryEmbedding =
     \<lparr> qp_vector = queryEmbedding,
       qp_topK = or_default (rq_topK request) 5,
       qp_includeMetadata = (rq_includeMetadata request \<noteq> Some False),
       qp_filter = (case rq_filter request of
                      None \<Rightarrow> None
                    | Some f \<Rightarrow> if length f > 0 then Some f else None) \<rparr>"

definition to_match :: "provider_match \<Rightarrow> rag_match" where
  "to_match m =
     \<lparr> match_id = pm_id m,
       match_score = (case pm_score m of None \<Rightarrow> 0 | Some x \<Rightarrow> x),
       match_metadata = pm_metadata m \<rparr>"

text \<open>\<^verbatim>\<open>performVectorSearch\<close>: whatever is thrown inside its \<^verbatim>\<open>try\<close>, the missing list of
  matches included, is replaced by the error \<open>Failed to perform vector search\<close>.\<close>

definition performVectorSearch :: "rag_providers \<Rightarrow> rag_request \<Rightarrow> app_error + search_response" where
  "performVectorSearch prov request =
     (if \<not> clients_ok prov then Inl search_failed
      else
        (case generateQueryEmbedding prov (rq_query request) of
           Inl e \<Rightarrow> Inl search_failed
         | Inr queryEmbedding \<Rightarrow>
             (case index_query prov (truthy_str (rq_namespace request))
                     (search_params request queryEmbedding) of
                IndexThrows \<Rightarrow> Inl search_failed
              | IndexResponse None \<Rightarrow> Inl search_failed
              | IndexResponse (Some ms) \<Rightarrow>
                  Inr \<lparr> matches = map to_match ms, sr_query = rq_query request,
                        sr_namespace = rq_namespace request,
                        totalMatches = length (map to_match ms) \<rparr>)))"

text \<open>\<^verbatim>\<open>match.metadata?.content\<close> as a condition: the metadata and a content that is not
  empty.\<close>

definition has_content :: "rag_match \<Rightarrow> bool" where
  "has_content m =
     (case match_metadata m of
        None \<Rightarrow> False
      | Some md \<Rightarrow> (case md_content md of None \<Rightarrow> False | Some c \<Rightarrow> c \<noteq> []))"

text \<open>\<^verbatim>\<open>a || b\<close> on optional strings.\<close>

definition or_str :: "string option \<Rightarrow> string \<Rightarrow> string" where
  "or_str x d = (case x of None \<Rightarrow> d | Some v \<Rightarrow> if v = [] then d else v)"

definition context_part :: "nat \<Rightarrow> rag_match \<Rightarrow> string" where
  "context_part index m =
     (case match_metadata m of
        None \<Rightarrow> []
      | Some md \<Rightarrow>
          (let source = or_str (md_url md) (or_str (md_source md) ''Unknown source'');
               title = or_str (md_title md) ''Untitled'';
               section = or_str (md_section md) []
           in ''[Source '' @ string_of_nat (index + 1) @ ''] '' @ title @
              (if section \<noteq> [] then '' - '' @ section else []) @ [CHR 0x0A] @
              ''URL: '' @ source @ [CHR 0x0A] @
              ''Content: '' @ or_str (md_content md) []))"

definition systemPrompt :: string where
  "systemPrompt = join [CHR 0x0A]
     [''You are an intelligent AI assistant that provides comprehensive, accurate, and helpful answers based on the provided documentation context. Your role is to:'',
      [],
      ''1. Analyze the user'' @ [CHR 0x27] @ ''s question thoroughly'',
      ''2. Use the provided context to generate detailed, accurate responses'',
      ''3. Cite specific sources when referencing information'',
      ''4. Provide structured, well-organized answers'',
      ''5. Include relevant code examples, steps, or explanations when appropriate'',
      ''6. If the context doesn'' @ [CHR 0x27] @ ''t fully answer the question, clearly state what information is missing'',
      ''7. Be conversational but professional in tone'',
      [],
      ''Always structure your responses with:'',
      ''- A clear, direct answer to the question'',
      ''- Supporting details with source citations'',
      ''- Practical examples or steps when relevant'',
      ''- Additional context or related information that might be helpful'',
      [],
      ''When citing sources, use the format: (Source X) where X is the source number provided in the context.'']"

definition userPrompt :: "string \<Rightarrow> string \<Rightarrow> string" where
  "userPrompt q context =
     ''Based on the following documentation context, please provide a comprehensive and detailed answer to this question: '' @
     [CHR 0x22] @ q @ [CHR 0x22] @ [CHR 0x0A, CHR 0x0A] @
     ''Context from documentation:'' @ [CHR 0x0A] @ context @ [CHR 0x0A, CHR 0x0A] @
     ''Please provide a thorough, well-structured answer that addresses the user'' @ [CHR 0x27] @
     ''s question using the information from the provided sources. Include specific details, examples, and step-by-step instructions where appropriate. Cite your sources using (Source X) format.''"

definition answer_failed :: app_error where
  "answer_failed = AppError ''Failed to generate intelligent response'' 500"

definition search_request_of :: "rag_request \<Rightarrow> rag_request" where
  "search_request_of request =
     \<lparr> rq_query = rq_query request, rq_namespace = rq_namespace request,
       rq_topK = Some (or_default (rq_topK request) 5), rq_includeMetadata = Some True,
       rq_filter = rq_filter request \<rparr>"

text \<open>\<^verbatim>\<open>generateRAGAnswer\<close>: an \<^verbatim>\<open>AppError\<close> is thrown on as it is, any other error becomes
  \<open>Failed to generate intelligent response\<close>.\<close>

definition generateRAGAnswer :: "rag_providers \<Rightarrow> rag_request \<Rightarrow> app_error + query_response" where
  "generateRAGAnswer prov request =
     (if \<not> clients_ok prov then Inl answer_failed
      else
        (case performVectorSearch prov (search_request_of request) of
           Inl e \<Rightarrow> Inl e
         | Inr searchResponse \<Rightarrow>
             if length (matches searchResponse) = 0
             then Inl (AppError ''No relevant information found in the knowledge base'' 404)
             else
               (let contextParts =
                      map (\<lambda>(index, m). context_part index m)
                        (enumerate 0 (filter has_content (matches searchResponse)))
                in if length contextParts = 0
                   then Inl (AppError ''No usable content found in search results'' 404)
                   else
                     (let context = join ([CHR 0x0A, CHR 0x0A] @ ''---'' @ [CHR 0x0A, CHR 0x0A])
                                      contextParts;
                          avgScore = sum_list (map match_score (matches searchResponse)) /
                                       real (length (matches searchResponse));
                          confidence = min (max (avgScore * 100) 0) 100
                      in case complete prov systemPrompt
                                (userPrompt (rq_query request) context) of
                           CompletionThrows \<Rightarrow> Inl answer_failed
                         | CompletionContent None \<Rightarrow> Inl answer_failed
                         | CompletionContent (Some a) \<Rightarrow>
                             if a = [] then Inl answer_failed
                             else Inr \<lparr> answer = a, sources = matches searchResponse,
                                        ans_query = rq_query request,
                                        ans_namespace = rq_namespace request,
                                        confidence = confidence \<rparr>))))"

section \<open>Example inputs\<close>

text \<open>
  A parser for the examples: it accepts the absolute \<^verbatim>\<open>http://\<close> URLs with a host, which are
  taken to be in serialized form already, and cuts them at the first \<^verbatim>\<open>/\<close>, \<^verbatim>\<open>?\<close> and \<^verbatim>\<open>#\<close>
  as the platform does.
\<close>

definition example_parser :: url_parser where
  "example_parser s =
     (let rest = drop 7 s;
          host = takeWhile (\<lambda>c. c \<notin> set ''/?#'') rest;
          after_host = dropWhile (\<lambda>c. c \<notin> set ''/?#'') rest;
          path = takeWhile (\<lambda>c. c \<notin> set ''?#'') after_host;
          after_path = dropWhile (\<lambda>c. c \<notin> set ''?#'') after_host
      in if take 7 s = ''http://'' \<and> host \<noteq> [] then
           Some \<lparr> href = s, hostname = host,
                  pathname = (if path = [] then ''/'' else path),
                  search = takeWhile (\<lambda>c. c \<noteq> CHR ''#'') after_path,
                  hash = dropWhile (\<lambda>c. c \<noteq> CHR ''#'') after_path \<rparr>
         else None)"

definition example_metadata :: "string list \<Rightarrow> page_metadata" where
  "example_metadata links =
     \<lparr> description = [], meta_keywords = [], author = [], publishDate = [],
       lastModified = [], canonical = [], language = ''en'', contentType = ''text/html'',
       wordCount = 2, links_internal = links, links_external = [], images = [],
       headings = [] \<rparr>"

definition example_page :: "string \<Rightarrow> crawled_page" where
  "example_page u =
     \<lparr> url = u, title = ''Guide'', content = ''first second'',
       metadata = example_metadata [], crawledAt = 0, status = 200, depth = 0 \<rparr>"

text \<open>A text of 2500 tokens.\<close>

definition page2500 :: string where
  "page2500 = join '' '' (replicate 2500 ''w'')"

text \<open>A site for the examples: every listed URL answers with an HTML page that links to the
  given URLs, and any other URL fails with status 404.\<close>

definition example_document :: "string list \<Rightarrow> html_document" where
  "example_document links =
     \<lparr> doc_title = ''Guide'', doc_content = ''first second'',
       doc_metadata = example_metadata links, doc_crawledAt = 0, doc_status = 200 \<rparr>"

definition example_web :: "(string \<times> string list) list \<Rightarrow> web" where
  "example_web site u =
     (case map_of site u of
        None \<Rightarrow> Failed ''Request failed with status code 404'' (Some 404)
      | Some links \<Rightarrow> Html (example_document links))"

definition example_request :: "string \<Rightarrow> int option \<Rightarrow> crawl_request" where
  "example_request u max_pages =
     \<lparr> req_url = u, req_maxDepth = None, req_maxPages = max_pages, req_delay = None,
       req_includePatterns = None, req_excludePatterns = None,
       req_followExternalLinks = None \<rparr>"

definition example_config :: "int option \<Rightarrow> web_crawler_config" where
  "example_config max_pages =
     (mergeConfig (example_request ''http://docs.test/'' max_pages))
       \<lparr> allowedDomains := [''docs.test''] \<rparr>"

text \<open>Three sites: one whose second level is wider than what is left of the page budget, one
  where two pages link to the same page, and one with a link to a page that is missing.\<close>

definition overrun_site :: "(string \<times> string list) list" where
  "overrun_site =
     [(''http://docs.test/'', [''http://docs.test/a'', ''http://docs.test/b'']),
      (''http://docs.test/a'', [''http://docs.test/c'', ''http://docs.test/d'']),
      (''http://docs.test/b'', []),
      (''http://docs.test/c'', []),
      (''http://docs.test/d'', [])]"


definition broken_site :: "(string \<times> string list) list" where
  "broken_site =
     [(''http://docs.test/'', [''http://docs.test/a'', ''http://docs.test/missing'']),
      (''http://docs.test/a'', [])]"

text \<open>Inputs for the embedder: an environment with both keys, the one chunk of an example page,
  and a provider that answers until a given call and throws from then on.\<close>

definition example_env :: service_env where
  "example_env =
     \<lparr> openai_client = False, openai_apiKey = ''sk-test'', pinecone_client = False,
       pinecone_apiKey = ''pc-test'', pinecone_indexName = ''docs'' \<rparr>"

definition example_chunk :: "string \<Rightarrow> text_chunk" where
  "example_chunk u =
     make_chunk (example_page u) ''docs.test'' 1000 200 1 0 ''Guide first second''"

definition fails_from :: "nat \<Rightarrow> embed_provider" where
  "fails_from n k model inputs =
     (if n \<le> k then EmbedThrows else EmbedData (map (\<lambda>_. Some [1 / 2, 1 / 4]) inputs))"

definition example_vector_request :: vector_crawl_request where
  "example_vector_request =
     \<lparr> req_url = ''http://docs.test/guide'', req_maxDepth = None, req_maxPages = None,
       req_delay = None, req_includePatterns = None, req_excludePatterns = None,
       req_followExternalLinks = None, req_indexName = None, req_namespace = Some ''docs'',
       req_chunkSize = None, req_chunkOverlap = None \<rparr>"

text \<open>Inputs for the retriever: two matches, of which the second has no metadata, and
  providers that answer every call, the index with a given reply.\<close>

definition example_rag_metadata :: "string option \<Rightarrow> rag_metadata" where
  "example_rag_metadata c =
     \<lparr> md_content = c, md_title = Some ''Guide'', md_url = Some ''http://docs.test/guide'',
       md_section = None, md_source = None \<rparr>"

definition example_matches :: "provider_match list" where
  "example_matches =
     [\<lparr> pm_id = ''with-content'', pm_score = Some (9 / 10),
        pm_metadata = Some (example_rag_metadata (Some ''first second'')) \<rparr>,
      \<lparr> pm_id = ''without-content'', pm_score = Some (1 / 10), pm_metadata = None \<rparr>]"

definition example_providers :: "index_reply \<Rightarrow> rag_providers" where
  "example_providers reply =
     \<lparr> clients_ok = True,
       embed_query = (\<lambda>q. QueryEmbedData (Some [1 / 2, 1 / 4])),
       index_query = (\<lambda>ns params. reply),
       complete = (\<lambda>sys usr. CompletionContent (Some ''See (Source 1).'')) \<rparr>"

definition example_rag_request :: rag_request where
  "example_rag_request =
     \<lparr> rq_query = ''how to start'', rq_namespace = ''docs'', rq_topK = None,
       rq_includeMetadata = None, rq_filter = None \<rparr>"

section \<open>Properties of the chunker\<close>

lemma chunk_loop_windows:
  "0 < chunkSize - overlap \<Longrightarrow>
   chunk_loop words chunkSize overlap i chunks =
     Some (chunks @ window_chunks words chunkSize
             (window_starts i (int (length words)) (chunkSize - overlap)))"
proof (induction i "int (length words)" "chunkSize - overlap" arbitrary: chunks
    rule: window_starts.induct)
  case (1 i)
  show ?case
  proof (cases "i < int (length words)")
    case True
    with "1.prems" have step: "0 < chunkSize - overlap \<and> i < int (length words)"
      by simp
    show ?thesis
      using "1.hyps" [OF step "1.prems"] step
      by (subst chunk_loop.simps, subst window_starts.simps)
         (simp add: window_chunks_def Let_def)
  next
    case False
    then show ?thesis
      by (subst chunk_loop.simps, subst window_starts.simps)
         (simp add: window_chunks_def)
  qed
qed



lemma split_ws_unfold:
  "split_ws s =
     (if dropWhile (\<lambda>c. \<not> is_space c) s = [] then [takeWhile (\<lambda>c. \<not> is_space c) s]
      else takeWhile (\<lambda>c. \<not> is_space c) s #
           split_ws (dropWhile is_space (dropWhile (\<lambda>c. \<not> is_space c) s)))"
  by (subst split_ws.simps) (simp only: Let_def)

lemma split_ws_no_space: "w \<in> set (split_ws s) \<Longrightarrow> c \<in> set w \<Longrightarrow> \<not> is_space c"
proof (induction s rule: split_ws.induct)
  case (1 s)
  show ?case
  proof (cases "dropWhile (\<lambda>c. \<not> is_space c) s = []")
    case True
    with "1.prems"(1) have "w = takeWhile (\<lambda>c. \<not> is_space c) s"
      by (subst (asm) split_ws_unfold) (simp only: if_True, simp)
    with "1.prems"(2) show ?thesis
      by (auto dest: set_takeWhileD)
  next
    case False
    with "1.prems"(1) have "w = takeWhile (\<lambda>c. \<not> is_space c) s \<or>
        w \<in> set (split_ws (dropWhile is_space (dropWhile (\<lambda>c. \<not> is_space c) s)))"
      by (subst (asm) split_ws_unfold) (simp only: if_False, simp)
    then show ?thesis
      using "1.IH" [OF refl refl False] "1.prems"(2)
      by (auto dest: set_takeWhileD)
  qed
qed

lemma split_ws_word_append:
  assumes "plain_word w" "r \<noteq> []" "\<not> is_space (hd r)"
  shows "split_ws (w @ CHR '' '' # r) = w # split_ws r"
proof -
  have sp: "is_space (CHR '' '')" by (simp add: is_space_def)
  have tw: "takeWhile (\<lambda>c. \<not> is_space c) (w @ CHR '' '' # r) = w"
    using assms(1) sp by (simp add: plain_word_def)
  have dw: "dropWhile (\<lambda>c. \<not> is_space c) (w @ CHR '' '' # r) = CHR '' '' # r"
    using assms(1) sp by (simp add: plain_word_def)
  have dr: "dropWhile is_space (CHR '' '' # r) = r"
    using assms(2,3) sp by (cases r) auto
  show ?thesis
    by (subst split_ws_unfold) (simp only: tw dw dr, simp)
qed

lemma split_ws_plain: "plain_word w \<Longrightarrow> split_ws w = [w]"
  by (subst split_ws_unfold) (simp add: plain_word_def)

lemma join_hd_plain:
  "ws \<noteq> [] \<Longrightarrow> \<forall>w \<in> set ws. plain_word w \<Longrightarrow> join '' '' ws \<noteq> [] \<and> \<not> is_space (hd (join '' '' ws))"
  by (induction "'' ''" ws rule: join.induct) (auto simp: plain_word_def)

lemma split_ws_join:
  "ws \<noteq> [] \<Longrightarrow> \<forall>w \<in> set ws. plain_word w \<Longrightarrow> split_ws (join '' '' ws) = ws"
proof (induction "'' ''" ws rule: join.induct)
  case 1
  then show ?case by simp
next
  case (2 x)
  then show ?case by (simp add: split_ws_plain)
next
  case (3 x y ys)
  have "split_ws (x @ CHR '' '' # join '' '' (y # ys)) = x # split_ws (join '' '' (y # ys))"
    using 3 join_hd_plain [of "y # ys"] by (intro split_ws_word_append) auto
  with 3 show ?case by simp
qed

lemma chunkText_windows:
  assumes "overlap < chunkSize"
  shows "chunkText text chunkSize overlap =
     Some (let chunks = window_chunks (split_ws text) chunkSize
                          (window_starts 0 (int (length (split_ws text))) (chunkSize - overlap))
           in if chunks = [] then [text] else chunks)"
  using assms by (simp add: chunkText_def chunk_loop_windows Let_def)


lemma chunkText_nonempty:
  "chunkText text chunkSize overlap = Some chunks \<Longrightarrow> chunks \<noteq> []"
  by (auto simp: chunkText_def split: option.splits if_splits)

lemma page_chunks_total:
  assumes "overlap < chunkSize"
  shows "\<exists>cs. page_chunks P page chunkSize overlap = Some cs \<and>
           (\<forall>c \<in> set cs. 1 \<le> totalChunks (c_metadata c) \<and> m_url (c_metadata c) = url page) \<and>
           (P (url page) \<noteq> None \<longrightarrow> cs \<noteq> [])"
proof (cases "P (url page)")
  case None
  then show ?thesis by (simp add: page_chunks_def)
next
  case (Some u)
  obtain pcs where pcs: "chunkText (title page @ [CHR 0x0A, CHR 0x0A] @ content page) chunkSize overlap = Some pcs"
    using chunkText_windows [OF assms] by blast
  then have ne: "pcs \<noteq> []" by (rule chunkText_nonempty)
  have ne': "enumerate 0 pcs \<noteq> []"
    using ne by (cases pcs) simp_all
  show ?thesis
    using Some pcs ne ne'
    by (auto simp: page_chunks_def make_chunk_def Let_def in_set_enumerate_eq Suc_le_eq)
qed

lemma processIntoChunks_from_total:
  assumes "overlap < chunkSize"
  shows "\<exists>cs. processIntoChunks_from P pgs chunkSize overlap acc = Some (acc @ cs) \<and>
           (\<forall>c \<in> set cs. 1 \<le> totalChunks (c_metadata c)) \<and>
           (\<forall>p \<in> set pgs. P (url p) \<noteq> None \<longrightarrow> (\<exists>c \<in> set cs. m_url (c_metadata c) = url p))"
proof (induction pgs arbitrary: acc)
  case Nil
  then show ?case by simp
next
  case (Cons page pgs)
  obtain cs where cs: "page_chunks P page chunkSize overlap = Some cs"
      "\<forall>c \<in> set cs. 1 \<le> totalChunks (c_metadata c) \<and> m_url (c_metadata c) = url page"
      "P (url page) \<noteq> None \<longrightarrow> cs \<noteq> []"
    using page_chunks_total [OF assms] by blast
  obtain ds where ds: "processIntoChunks_from P pgs chunkSize overlap (acc @ cs) = Some ((acc @ cs) @ ds)"
      "\<forall>c \<in> set ds. 1 \<le> totalChunks (c_metadata c)"
      "\<forall>p \<in> set pgs. P (url p) \<noteq> None \<longrightarrow> (\<exists>c \<in> set ds. m_url (c_metadata c) = url p)"
    using Cons.IH by blast
  have hd: "P (url page) \<noteq> None \<longrightarrow> (\<exists>c \<in> set (cs @ ds). m_url (c_metadata c) = url page)"
    using cs(2,3) by (cases cs) auto
  show ?case
  proof (intro exI [of _ "cs @ ds"] conjI)
    show "processIntoChunks_from P (page # pgs) chunkSize overlap acc = Some (acc @ cs @ ds)"
      using cs(1) ds(1) by simp
    show "\<forall>c \<in> set (cs @ ds). 1 \<le> totalChunks (c_metadata c)"
      using cs(2) ds(2) by auto
    show "\<forall>p \<in> set (page # pgs). P (url p) \<noteq> None \<longrightarrow>
            (\<exists>c \<in> set (cs @ ds). m_url (c_metadata c) = url p)"
      using hd ds(3) by auto
  qed
qed

lemma join_last_plain:
  "ws \<noteq> [] \<Longrightarrow> \<forall>w \<in> set ws. plain_word w \<Longrightarrow> \<not> is_space (last (join '' '' ws))"
proof (induction "'' ''" ws rule: join.induct)
  case (3 x y ys)
  then have "join '' '' (y # ys) \<noteq> []"
    using join_hd_plain [of "y # ys"] by simp
  with 3 show ?case by simp
qed (auto simp: plain_word_def)

lemma trim_id:
  assumes "s \<noteq> []" "\<not> is_space (hd s)" "\<not> is_space (last s)"
  shows "trim s = s"
proof -
  have a: "dropWhile is_space s = s"
    using assms(1,2) by (cases s) auto
  have b: "dropWhile is_space (rev s) = rev s"
    using assms(1,3) by (cases "rev s") (auto simp: last_rev [symmetric] hd_rev)
  show ?thesis by (simp add: trim_def a b)
qed

lemma trim_join_plain:
  assumes "ws \<noteq> []" "\<forall>w \<in> set ws. plain_word w"
  shows "trim (join '' '' ws) = join '' '' ws" "join '' '' ws \<noteq> []"
  using join_hd_plain [OF assms] join_last_plain [OF assms]
  by (simp_all add: trim_id)

lemma window_chunks_plain:
  assumes "\<forall>i \<in> set starts. js_slice words i (i + chunkSize) \<noteq> []"
    and "\<forall>w \<in> set words. plain_word w"
  shows "window_chunks words chunkSize starts =
           map (\<lambda>i. join '' '' (js_slice words i (i + chunkSize))) starts"
proof -
  have "\<And>i. i \<in> set starts \<Longrightarrow>
        trim (join '' '' (js_slice words i (i + chunkSize))) = join '' '' (js_slice words i (i + chunkSize))
        \<and> join '' '' (js_slice words i (i + chunkSize)) \<noteq> []"
  proof -
    fix i assume i: "i \<in> set starts"
    have sub: "set (js_slice words i (i + chunkSize)) \<subseteq> set words"
      by (auto simp: js_slice_def Let_def dest: in_set_takeD in_set_dropD)
    show "trim (join '' '' (js_slice words i (i + chunkSize))) = join '' '' (js_slice words i (i + chunkSize))
        \<and> join '' '' (js_slice words i (i + chunkSize)) \<noteq> []"
      using trim_join_plain [of "js_slice words i (i + chunkSize)"] assms i sub by auto
  qed
  then show ?thesis
    unfolding window_chunks_def
    by (induction starts) auto
qed

lemma starts_2500: "window_starts 0 2500 800 = [0, 800, 1600, 2400]"
  by (simp add: window_starts.simps)

lemma scenario_B_chunks:
  assumes len: "length (split_ws doc) = 2500" and ne: "\<forall>w \<in> set (split_ws doc). w \<noteq> []"
  shows "chunkText doc 1000 200 =
           Some (map (join '' '')
             [take 1000 (split_ws doc), take 1000 (drop 800 (split_ws doc)),
              drop 1600 (split_ws doc), drop 2400 (split_ws doc)])"
    and "map (length \<circ> split_ws) (map (join '' '')
             [take 1000 (split_ws doc), take 1000 (drop 800 (split_ws doc)),
              drop 1600 (split_ws doc), drop 2400 (split_ws doc)]) = [1000, 1000, 900, 100]"
proof -
  define ws where "ws = split_ws doc"
  have plain: "\<forall>w \<in> set ws. plain_word w"
    using ne split_ws_no_space [of _ doc] by (auto simp: plain_word_def ws_def)
  have sl: "js_slice ws 0 1000 = take 1000 ws" "js_slice ws 800 1800 = take 1000 (drop 800 ws)"
    "js_slice ws 1600 2600 = drop 1600 ws" "js_slice ws 2400 3400 = drop 2400 ws"
    using len by (simp_all add: js_slice_def ws_def)
  have lens: "length ws = 2500" using len by (simp add: ws_def)
  have wc: "window_chunks ws 1000 [0, 800, 1600, 2400] =
      map (\<lambda>i. join '' '' (js_slice ws i (i + 1000))) [0, 800, 1600, 2400]"
    using plain lens by (intro window_chunks_plain) (auto simp: sl)
  show "chunkText doc 1000 200 =
           Some (map (join '' '')
             [take 1000 (split_ws doc), take 1000 (drop 800 (split_ws doc)),
              drop 1600 (split_ws doc), drop 2400 (split_ws doc)])"
  proof -
    have st: "window_starts 0 (int (length ws)) (1000 - 200) = [0, 800, 1600, 2400]"
      using starts_2500 by (simp add: lens)
    have "chunkText doc 1000 200 = Some (window_chunks ws 1000 [0, 800, 1600, 2400])"
      using chunkText_windows [of 200 1000 doc]
      unfolding ws_def [symmetric] st by (simp add: wc Let_def)
    also have "window_chunks ws 1000 [0, 800, 1600, 2400] =
        map (join '' '') [take 1000 ws, take 1000 (drop 800 ws), drop 1600 ws, drop 2400 ws]"
      by (simp add: wc sl)
    finally show ?thesis
      by (simp add: ws_def)
  qed
  have rt: "\<And>xs. xs \<noteq> [] \<Longrightarrow> set xs \<subseteq> set ws \<Longrightarrow> length (split_ws (join '' '' xs)) = length xs"
    using plain by (subst split_ws_join) auto
  show "map (length \<circ> split_ws) (map (join '' '')
             [take 1000 (split_ws doc), take 1000 (drop 800 (split_ws doc)),
              drop 1600 (split_ws doc), drop 2400 (split_ws doc)]) = [1000, 1000, 900, 100]"
  proof -
    have ne1: "take 1000 ws \<noteq> []" "take 1000 (drop 800 ws) \<noteq> []"
        "drop 1600 ws \<noteq> []" "drop 2400 ws \<noteq> []"
      using lens by auto
    have "length (split_ws (join '' '' (take 1000 ws))) = 1000"
      using rt [OF ne1(1)] lens by (simp add: set_take_subset)
    moreover have "length (split_ws (join '' '' (take 1000 (drop 800 ws)))) = 1000"
      using rt [OF ne1(2)] lens
      by (simp add: subset_trans [OF set_take_subset set_drop_subset])
    moreover have "length (split_ws (join '' '' (drop 1600 ws))) = 900"
      using rt [OF ne1(3)] lens by (simp add: set_drop_subset)
    moreover have "length (split_ws (join '' '' (drop 2400 ws))) = 100"
      using rt [OF ne1(4)] lens by (simp add: set_drop_subset)
    ultimately show ?thesis
      by (simp add: ws_def)
  qed
qed

lemma split_ws_page2500: "split_ws page2500 = replicate 2500 ''w''"
  unfolding page2500_def
  by (rule split_ws_join) (auto simp: plain_word_def is_space_def)

lemma page_chunks_contents:
  "P (url page) \<noteq> None \<Longrightarrow>
   map_option (map c_content) (page_chunks P page chunkSize overlap) =
     chunkText (title page @ [CHR 0x0A, CHR 0x0A] @ content page) chunkSize overlap"
  by (auto simp: page_chunks_def Let_def make_chunk_def map_snd_enumerate comp_def
        case_prod_unfold split: option.splits)

lemma example_parser_http: "example_parser ''http://docs.test/guide'' \<noteq> None"
  by (simp add: example_parser_def Let_def)



section \<open>Properties of the crawler\<close>


lemma crawlSinglePage_cases:
  "crawlSinglePage W u d V E =
     (if u \<in> V then (None, V, E)
      else (page_of_fetch W u d, insert u V,
            (case W u of Failed m s \<Rightarrow> E @ [error_entry u m s] | _ \<Rightarrow> E)))"
  by (auto simp: crawlSinglePage_def page_of_fetch_def split: fetch_result.splits)


lemma crawl_batch_visited:
  "crawl_batch W items V E = (rs, V', E') \<Longrightarrow> V' = V \<union> q_url ` set items"
proof (induction items arbitrary: V E rs V' E')
  case Nil
  then show ?case by simp
next
  case (Cons item items)
  obtain r V1 E1 where one: "crawlSinglePage W (q_url item) (q_depth item) V E = (r, V1, E1)"
    by (cases "crawlSinglePage W (q_url item) (q_depth item) V E") auto
  obtain rs' where rest: "crawl_batch W items V1 E1 = (rs', V', E')"
    using Cons.prems(1) one by (auto split: prod.splits)
  have "V1 = insert (q_url item) V"
    using one by (auto simp: crawlSinglePage_cases split: if_splits)
  with Cons.IH [OF rest] show ?case by auto
qed





lemma page_of_fetch_Some:
  "page_of_fetch W u d = Some p \<Longrightarrow> url p = u \<and> depth p = d"
  by (auto simp: page_of_fetch_def extractPageData_def split: fetch_result.splits)

lemma crawl_batch_pages:
  "crawl_batch W items V E = (rs, V', E') \<Longrightarrow>
   distinct (map url (List.map_filter snd (zip items rs))) \<and>
   url ` set (List.map_filter snd (zip items rs)) \<subseteq> q_url ` set items - V \<and>
   (\<forall>item p. (item, Some p) \<in> set (zip items rs) \<longrightarrow>
      url p = q_url item \<and> depth p = q_depth item)"
proof (induction items arbitrary: V E rs V' E')
  case Nil
  then show ?case by (simp add: List.map_filter_simps)
next
  case (Cons item items)
  obtain r V1 E1 where one: "crawlSinglePage W (q_url item) (q_depth item) V E = (r, V1, E1)"
    by (cases "crawlSinglePage W (q_url item) (q_depth item) V E") auto
  obtain rs' where rest: "crawl_batch W items V1 E1 = (rs', V', E')" and rs: "rs = r # rs'"
    using Cons.prems(1) one by (auto split: prod.splits)
  note IH = Cons.IH [OF rest]
  show ?case
  proof (cases r)
    case None
    have "V \<subseteq> V1" using one by (auto simp: crawlSinglePage_cases split: if_splits)
    with IH None rs show ?thesis
      by (auto simp: List.map_filter_simps)
  next
    case (Some p)
    with one have fresh: "q_url item \<notin> V" and V1: "V1 = insert (q_url item) V"
      and p: "page_of_fetch W (q_url item) (q_depth item) = Some p"
      by (auto simp: crawlSinglePage_cases split: if_splits)
    from page_of_fetch_Some [OF p] have up: "url p = q_url item" "depth p = q_depth item"
      by simp_all
    from IH V1 up have "url p \<notin> url ` set (List.map_filter snd (zip items rs'))"
      by auto
    with IH Some rs up fresh V1 show ?thesis
      by (auto simp: List.map_filter_simps)
  qed
qed

lemma enqueue_urls_added:
  "\<exists>added. enqueue_urls cfg V n d us queue = queue @ added \<and>
     (\<forall>q \<in> set added. q_url q \<in> set us \<and> q_url q \<notin> V \<and> q_depth q = d + 1) \<and>
     (added \<noteq> [] \<longrightarrow> int n + int (length (queue @ added)) \<le> maxPages cfg)"
proof (induction us arbitrary: queue)
  case Nil
  then show ?case by simp
next
  case (Cons u us)
  show ?case
  proof (cases "u \<notin> V \<and> int n + int (length queue) < maxPages cfg")
    case True
    from Cons [of "queue @ [\<lparr>q_url = u, q_depth = d + 1\<rparr>]"] obtain added where
      a: "enqueue_urls cfg V n d us (queue @ [\<lparr>q_url = u, q_depth = d + 1\<rparr>]) =
            (queue @ [\<lparr>q_url = u, q_depth = d + 1\<rparr>]) @ added"
         "\<forall>q \<in> set added. q_url q \<in> set us \<and> q_url q \<notin> V \<and> q_depth q = d + 1"
         "added \<noteq> [] \<longrightarrow>
            int n + int (length ((queue @ [\<lparr>q_url = u, q_depth = d + 1\<rparr>]) @ added)) \<le> maxPages cfg"
      by blast
    show ?thesis
    proof (intro exI [of _ "\<lparr>q_url = u, q_depth = d + 1\<rparr> # added"] conjI)
      show "enqueue_urls cfg V n d (u # us) queue = queue @ \<lparr>q_url = u, q_depth = d + 1\<rparr> # added"
        using True a(1) by simp
      show "\<forall>q \<in> set (\<lparr>q_url = u, q_depth = d + 1\<rparr> # added).
              q_url q \<in> set (u # us) \<and> q_url q \<notin> V \<and> q_depth q = d + 1"
        using True a(2) by auto
      show "\<lparr>q_url = u, q_depth = d + 1\<rparr> # added \<noteq> [] \<longrightarrow>
              int n + int (length (queue @ \<lparr>q_url = u, q_depth = d + 1\<rparr> # added)) \<le> maxPages cfg"
        using True a(3) by (cases added) auto
    qed
  next
    case False
    from Cons [of queue] obtain added where
      a: "enqueue_urls cfg V n d us queue = queue @ added"
         "\<forall>q \<in> set added. q_url q \<in> set us \<and> q_url q \<notin> V \<and> q_depth q = d + 1"
         "added \<noteq> [] \<longrightarrow> int n + int (length (queue @ added)) \<le> maxPages cfg"
      by blast
    show ?thesis
      using False a by (intro exI [of _ added]) auto
  qed
qed

lemma settle_results_pages:
  "fst (settle_results P cfg V zs pgs queue) = pgs @ List.map_filter snd zs"
  by (induction P cfg V zs pgs queue rule: settle_results.induct)
     (simp_all add: List.map_filter_simps)

lemma settle_results_no_page:
  "List.map_filter snd zs = [] \<Longrightarrow> snd (settle_results P cfg V zs pgs queue) = queue"
  by (induction P cfg V zs pgs queue rule: settle_results.induct)
     (simp_all add: List.map_filter_simps)

lemma settle_results_queue:
  "\<exists>added. snd (settle_results P cfg V zs pgs queue) = queue @ added \<and>
     (\<forall>q \<in> set added. \<exists>item p. (item, Some p) \<in> set zs \<and> q_depth item < maxDepth cfg \<and>
        q_url q \<in> set (extractUrls P p cfg) \<and> q_url q \<notin> V \<and> q_depth q = q_depth item + 1)"
proof (induction P cfg V zs pgs queue rule: settle_results.induct)
  case (1 P cfg V pgs queue)
  then show ?case by simp
next
  case (2 P cfg V batchItem rest pgs queue)
  then obtain added where "snd (settle_results P cfg V rest pgs queue) = queue @ added"
     "\<forall>q \<in> set added. \<exists>item p. (item, Some p) \<in> set rest \<and> q_depth item < maxDepth cfg \<and>
        q_url q \<in> set (extractUrls P p cfg) \<and> q_url q \<notin> V \<and> q_depth q = q_depth item + 1"
    by blast
  then show ?case
    by (intro exI [of _ added]) auto
next
  case (3 P cfg V batchItem page rest pgs queue)
  define queue' where "queue' =
       (if q_depth batchItem < maxDepth cfg
        then enqueue_urls cfg V (length (pgs @ [page]))
               (q_depth batchItem) (extractUrls P page cfg) queue
        else queue)"
  obtain a1 where a1: "queue' = queue @ a1"
     "\<forall>q \<in> set a1. q_depth batchItem < maxDepth cfg \<and>
        q_url q \<in> set (extractUrls P page cfg) \<and> q_url q \<notin> V \<and> q_depth q = q_depth batchItem + 1"
  proof (cases "q_depth batchItem < maxDepth cfg")
    case True
    from enqueue_urls_added [of cfg V "length (pgs @ [page])" "q_depth batchItem"
        "extractUrls P page cfg" queue]
    obtain added where "enqueue_urls cfg V (length (pgs @ [page])) (q_depth batchItem)
        (extractUrls P page cfg) queue = queue @ added"
      "\<forall>q \<in> set added. q_url q \<in> set (extractUrls P page cfg) \<and> q_url q \<notin> V \<and>
         q_depth q = q_depth batchItem + 1"
      by blast
    with True that [of added] show ?thesis by (simp add: queue'_def)
  next
    case False
    with that [of "[]"] show ?thesis by (simp add: queue'_def)
  qed
  from 3 [folded queue'_def] obtain a2 where a2:
     "snd (settle_results P cfg V rest (pgs @ [page]) queue') = queue' @ a2"
     "\<forall>q \<in> set a2. \<exists>item p. (item, Some p) \<in> set rest \<and> q_depth item < maxDepth cfg \<and>
        q_url q \<in> set (extractUrls P p cfg) \<and> q_url q \<notin> V \<and> q_depth q = q_depth item + 1"
    by blast
  show ?case
  proof (intro exI [of _ "a1 @ a2"] conjI)
    show "snd (settle_results P cfg V ((batchItem, Some page) # rest) pgs queue) = queue @ a1 @ a2"
      using a1(1) a2(1) by (simp add: queue'_def)
    show "\<forall>q \<in> set (a1 @ a2). \<exists>item p. (item, Some p) \<in> set ((batchItem, Some page) # rest) \<and>
        q_depth item < maxDepth cfg \<and> q_url q \<in> set (extractUrls P p cfg) \<and> q_url q \<notin> V \<and>
        q_depth q = q_depth item + 1"
    proof (intro ballI)
      fix q assume "q \<in> set (a1 @ a2)"
      then consider "q \<in> set a1" | "q \<in> set a2" by auto
      then show "\<exists>item p. (item, Some p) \<in> set ((batchItem, Some page) # rest) \<and>
        q_depth item < maxDepth cfg \<and> q_url q \<in> set (extractUrls P p cfg) \<and> q_url q \<notin> V \<and>
        q_depth q = q_depth item + 1"
      proof cases
        case 1
        with a1(2) show ?thesis
          by (intro exI [of _ batchItem] exI [of _ page]) simp
      next
        case 2
        with a2(2) obtain item p where "(item, Some p) \<in> set rest" "q_depth item < maxDepth cfg"
          "q_url q \<in> set (extractUrls P p cfg)" "q_url q \<notin> V" "q_depth q = q_depth item + 1"
          by blast
        then show ?thesis
          by (intro exI [of _ item] exI [of _ p]) simp
      qed
    qed
  qed
qed


lemma js_unique_into_set: "set (js_unique_into seen xs) = set seen \<union> set xs"
  by (induction seen xs rule: js_unique_into.induct) auto

lemma js_unique_into_distinct: "distinct seen \<Longrightarrow> distinct (js_unique_into seen xs)"
  by (induction seen xs rule: js_unique_into.induct) auto

lemma js_unique_set [simp]: "set (js_unique xs) = set xs"
  by (simp add: js_unique_def js_unique_into_set)

lemma js_unique_distinct [simp]: "distinct (js_unique xs)"
  by (simp add: js_unique_def js_unique_into_distinct)


lemma set_map_filter_eq:
  "set (List.map_filter f xs) = {y. \<exists>x \<in> set xs. f x = Some y}"
  by (induction xs) (auto split: option.splits)



lemma crawl_step_parts:
  obtains rs E' added where
    "crawl_batch W (take (nat (maxConcurrent cfg)) (urlQueue st)) (visitedUrls st) (errors st) =
       (rs, visitedUrls st \<union> q_url ` set (take (nat (maxConcurrent cfg)) (urlQueue st)), E')"
    "crawl_step P W cfg st =
       \<lparr> visitedUrls = visitedUrls st \<union> q_url ` set (take (nat (maxConcurrent cfg)) (urlQueue st)),
         crawledPages = crawledPages st @
           List.map_filter snd (zip (take (nat (maxConcurrent cfg)) (urlQueue st)) rs),
         errors = E',
         urlQueue = drop (nat (maxConcurrent cfg)) (urlQueue st) @ added \<rparr>"
    "List.map_filter snd (zip (take (nat (maxConcurrent cfg)) (urlQueue st)) rs) = [] \<Longrightarrow> added = []"
    "\<forall>q \<in> set added. \<exists>item p.
        (item, Some p) \<in> set (zip (take (nat (maxConcurrent cfg)) (urlQueue st)) rs) \<and>
        q_depth item < maxDepth cfg \<and> q_url q \<in> set (extractUrls P p cfg) \<and>
        q_url q \<notin> visitedUrls st \<union> q_url ` set (take (nat (maxConcurrent cfg)) (urlQueue st)) \<and>
        q_depth q = q_depth item + 1"
proof -
  define batch where "batch = take (nat (maxConcurrent cfg)) (urlQueue st)"
  define remaining where "remaining = drop (nat (maxConcurrent cfg)) (urlQueue st)"
  obtain rs V' E' where b: "crawl_batch W batch (visitedUrls st) (errors st) = (rs, V', E')"
    by (cases "crawl_batch W batch (visitedUrls st) (errors st)") auto
  have V': "V' = visitedUrls st \<union> q_url ` set batch"
    using crawl_batch_visited [OF b] .
  define res where "res = settle_results P cfg V' (zip batch rs) (crawledPages st) remaining"
  have pg: "fst res = crawledPages st @ List.map_filter snd (zip batch rs)"
    unfolding res_def by (rule settle_results_pages)
  obtain added where added: "snd res = remaining @ added"
    "\<forall>q \<in> set added. \<exists>item p. (item, Some p) \<in> set (zip batch rs) \<and> q_depth item < maxDepth cfg \<and>
        q_url q \<in> set (extractUrls P p cfg) \<and> q_url q \<notin> V' \<and> q_depth q = q_depth item + 1"
    using settle_results_queue [of P cfg V' "zip batch rs" "crawledPages st" remaining]
    unfolding res_def by blast
  have none: "List.map_filter snd (zip batch rs) = [] \<Longrightarrow> added = []"
    using settle_results_no_page [of "zip batch rs" P cfg V' "crawledPages st" remaining] added(1)
    unfolding res_def by simp
  have step: "crawl_step P W cfg st =
      \<lparr> visitedUrls = V', crawledPages = fst res, errors = E', urlQueue = snd res \<rparr>"
    using b by (simp add: crawl_step_def Let_def batch_def remaining_def res_def split: prod.splits)
  show ?thesis
    using that [of rs E' added] b step none added(2)
    unfolding V' pg added(1) batch_def remaining_def by blast
qed


lemma crawl_loop_unroll:
  "crawl_continues cfg st \<Longrightarrow>
     crawl_loop P W cfg st = crawl_loop P W cfg (crawl_step P W cfg st)"
  "\<not> crawl_continues cfg st \<Longrightarrow> crawl_loop P W cfg st = Some st"
  by (subst crawl_loop.simps, simp)+


lemma crawl_loop_rule:
  assumes ret: "crawl_loop P W cfg st = Some st'"
    and init: "I st"
    and step: "\<And>s. I s \<Longrightarrow> crawl_continues cfg s \<Longrightarrow> I (crawl_step P W cfg s)"
  shows "I st' \<and> \<not> crawl_continues cfg st'"
proof -
  have "P = P \<and> W = W \<and> cfg = cfg \<longrightarrow> I st \<longrightarrow> I st' \<and> \<not> crawl_continues cfg st'"
  proof (rule crawl_loop.raw_induct
      [where P = "\<lambda>P' W' cfg' s r. P' = P \<and> W' = W \<and> cfg' = cfg \<longrightarrow> I s \<longrightarrow>
                     I r \<and> \<not> crawl_continues cfg r", OF _ ret])
    fix f P' W' cfg' s r
    assume IH: "\<And>P' W' cfg' s r. f P' W' cfg' s = Some r \<Longrightarrow>
        P' = P \<and> W' = W \<and> cfg' = cfg \<longrightarrow> I s \<longrightarrow> I r \<and> \<not> crawl_continues cfg r"
      and body: "(if crawl_continues cfg' s then f P' W' cfg' (crawl_step P' W' cfg' s)
                  else Some s) = Some r"
    show "P' = P \<and> W' = W \<and> cfg' = cfg \<longrightarrow> I s \<longrightarrow> I r \<and> \<not> crawl_continues cfg r"
    proof (intro impI)
      assume eq: "P' = P \<and> W' = W \<and> cfg' = cfg" and Is: "I s"
      show "I r \<and> \<not> crawl_continues cfg r"
      proof (cases "crawl_continues cfg s")
        case True
        with body eq have "f P W cfg (crawl_step P W cfg s) = Some r" by simp
        from IH [OF this] step [OF Is True] show ?thesis by simp
      next
        case False
        with body eq Is show ?thesis by simp
      qed
    qed
  qed
  with init show ?thesis by simp
qed

lemma zip_Some_in_batch:
  "p \<in> set (List.map_filter snd (zip batch rs)) \<Longrightarrow> \<exists>item. item \<in> set batch \<and> (item, Some p) \<in> set (zip batch rs)"
  unfolding set_map_filter_eq by (auto dest: set_zip_leftD)




lemma depth_bounded_step:
  assumes "depth_bounded cfg st"
  shows "depth_bounded cfg (crawl_step P W cfg st)"
proof -
  define batch where "batch = take (nat (maxConcurrent cfg)) (urlQueue st)"
  obtain rs E' added where
    b: "crawl_batch W batch (visitedUrls st) (errors st) =
          (rs, visitedUrls st \<union> q_url ` set batch, E')"
    and step: "crawl_step P W cfg st =
       \<lparr> visitedUrls = visitedUrls st \<union> q_url ` set batch,
         crawledPages = crawledPages st @ List.map_filter snd (zip batch rs),
         errors = E',
         urlQueue = drop (nat (maxConcurrent cfg)) (urlQueue st) @ added \<rparr>"
    and added: "\<forall>q \<in> set added. \<exists>item p.
        (item, Some p) \<in> set (zip batch rs) \<and>
        q_depth item < maxDepth cfg \<and> q_url q \<in> set (extractUrls P p cfg) \<and>
        q_url q \<notin> visitedUrls st \<union> q_url ` set batch \<and>
        q_depth q = q_depth item + 1"
    unfolding batch_def by (rule crawl_step_parts [of W cfg st P]) blast
  have batch_sub: "set batch \<subseteq> set (urlQueue st)"
    unfolding batch_def by (rule set_take_subset)
  have newp: "depth p \<le> maxDepth cfg" if "p \<in> set (List.map_filter snd (zip batch rs))" for p
  proof -
    from zip_Some_in_batch [OF that] obtain item where
      "item \<in> set batch" "(item, Some p) \<in> set (zip batch rs)" by blast
    with crawl_batch_pages [OF b] have "depth p = q_depth item" by blast
    with \<open>item \<in> set batch\<close> batch_sub assms show ?thesis
      by (auto simp: depth_bounded_def)
  qed
  have newq: "q_depth q \<le> maxDepth cfg" if "q \<in> set added" for q
    using added that by fastforce
  have "\<And>q. q \<in> set (drop (nat (maxConcurrent cfg)) (urlQueue st)) \<Longrightarrow> q_depth q \<le> maxDepth cfg"
    using assms by (auto simp: depth_bounded_def dest: in_set_dropD)
  with newp newq assms show ?thesis
    unfolding depth_bounded_def step by auto
qed


lemma mergeConfig_fixed:
  "maxConcurrent (mergeConfig request) = 3" "allowedDomains (mergeConfig request) = []"
  by (simp_all add: mergeConfig_def defaultConfig_def)

lemma crawlDocumentation_malformed:
  "P (req_url request) = None \<Longrightarrow> crawlDocumentation P W request = Some (Inl crawl_failed)"
  by (simp add: crawlDocumentation_def normalizeUrl_def)

lemma crawlDocumentation_unfold:
  assumes "P (req_url request) = Some u0" "P (strip_fragment (href u0)) = Some b"
  shows "crawlDocumentation P W request =
           map_option (summarize P)
             (crawl_loop P W ((mergeConfig request) \<lparr> allowedDomains := [hostname b] \<rparr>)
                (initial_state (strip_fragment (href u0))))"
  using assms
  by (simp add: crawlDocumentation_def normalizeUrl_def Let_def mergeConfig_fixed
        split: option.splits)

lemma crawlDocumentation_Inr:
  assumes "crawlDocumentation P W request = Some (Inr r)"
  shows "\<exists>u0 b st. P (req_url request) = Some u0 \<and> P (strip_fragment (href u0)) = Some b \<and>
           crawl_loop P W ((mergeConfig request) \<lparr> allowedDomains := [hostname b] \<rparr>)
             (initial_state (strip_fragment (href u0))) = Some st \<and>
           summarize P st = Inr r"
proof (cases "P (req_url request)")
  case None
  with assms show ?thesis by (simp add: crawlDocumentation_malformed)
next
  case (Some u0)
  show ?thesis
  proof (cases "P (strip_fragment (href u0))")
    case None
    with Some assms show ?thesis
      by (simp add: crawlDocumentation_def normalizeUrl_def Let_def)
  next
    case b: (Some b)
    from assms show ?thesis
      unfolding crawlDocumentation_unfold [OF Some b] using Some b by auto
  qed
qed


lemma summarize_Inr:
  "summarize P st = Inr r \<Longrightarrow>
     success r \<and> pages r = crawledPages st \<and> summary_errors (summary r) = errors st \<and>
     totalPages (summary r) = length (crawledPages st) \<and>
     crawlDepth (summary r) = math_max (map depth (crawledPages st)) \<and>
     message r = ''Successfully crawled '' @ string_of_nat (length (crawledPages st)) @ '' pages''"
  by (auto simp: summarize_def Let_def split: option.splits)

lemma initial_invariants:
  "pages_distinct (initial_state base)" "errors_recorded W (initial_state base)"
  "P base \<noteq> None \<Longrightarrow> urls_parse P (initial_state base)"
  "0 \<le> maxDepth cfg \<Longrightarrow> depth_bounded cfg (initial_state base)"
  by (simp_all add: pages_distinct_def errors_recorded_def urls_parse_def depth_bounded_def
        initial_state_def)



lemma crawl_result_depth:
  assumes "crawlDocumentation P W request = Some (Inr r)" "0 \<le> maxDepth (mergeConfig request)"
  shows "\<forall>p \<in> set (pages r). depth p \<le> maxDepth (mergeConfig request)"
proof -
  from crawlDocumentation_Inr [OF assms(1)] obtain b :: parsed_url and base st where
    st: "crawl_loop P W ((mergeConfig request) \<lparr> allowedDomains := [hostname b] \<rparr>)
           (initial_state base) = Some st" and r: "summarize P st = Inr r"
    by auto
  have "depth_bounded ((mergeConfig request) \<lparr> allowedDomains := [hostname b] \<rparr>) st"
    using crawl_loop_rule [OF st, of "depth_bounded ((mergeConfig request) \<lparr> allowedDomains := [hostname b] \<rparr>)"]
      initial_invariants(4) depth_bounded_step assms(2)
    by simp
  with summarize_Inr [OF r] show ?thesis by (simp add: depth_bounded_def)
qed


lemma example_seed:
  "example_parser ''http://docs.test/'' =
     Some \<lparr> href = ''http://docs.test/'', hostname = ''docs.test'', pathname = ''/'',
            search = [], hash = [] \<rparr>"
  by (simp add: example_parser_def Let_def)

lemma example_crawl:
  "crawlDocumentation example_parser W (example_request ''http://docs.test/'' mp) =
     map_option (summarize example_parser)
       (crawl_loop example_parser W (example_config mp) (initial_state ''http://docs.test/''))"
proof -
  have sf: "strip_fragment ''http://docs.test/'' = ''http://docs.test/''"
    by (simp add: strip_fragment_def)
  have "req_url (example_request ''http://docs.test/'' mp) = ''http://docs.test/''"
    by (simp add: example_request_def)
  then show ?thesis
    using crawlDocumentation_unfold
      [of example_parser "example_request ''http://docs.test/'' mp" _ _ W]
      example_seed
    by (simp add: sf example_config_def)
qed

lemma string_of_nat_0: "string_of_nat 0 = ''0''"
  by (simp add: string_of_nat.simps)

lemma broken_site_crawl:
  "map_option (map_sum id (\<lambda>r. (map url (pages r), summary_errors (summary r))))
     (crawlDocumentation example_parser (example_web broken_site)
        (example_request ''http://docs.test/'' None)) =
   Some (Inr ([''http://docs.test/'', ''http://docs.test/a''],
              [error_entry ''http://docs.test/missing''
                 ''Request failed with status code 404'' (Some 404)]))"
proof -
  define step where
    "step = crawl_step example_parser (example_web broken_site) (example_config None)"
  define st0 where "st0 = initial_state ''http://docs.test/''"
  have c0: "crawl_continues (example_config None) st0"
    unfolding st0_def by code_simp
  have c1: "crawl_continues (example_config None) (step st0)"
    unfolding st0_def step_def by code_simp
  have c2: "\<not> crawl_continues (example_config None) (step (step st0))"
    unfolding st0_def step_def by code_simp
  have loop: "crawl_loop example_parser (example_web broken_site) (example_config None) st0 =
      Some (step (step st0))"
    using c0 c1 c2 by (simp add: crawl_loop_unroll step_def)
  have "map_sum id (\<lambda>r. (map url (pages r), summary_errors (summary r)))
          (summarize example_parser (step (step st0))) =
        Inr ([''http://docs.test/'', ''http://docs.test/a''],
              [error_entry ''http://docs.test/missing''
                 ''Request failed with status code 404'' (Some 404)])"
    unfolding st0_def step_def by code_simp
  with loop show ?thesis
    by (simp add: example_crawl st0_def)
qed

section \<open>Properties of the embedder\<close>

lemma generateVectorId_Some:
  "P (m_url (c_metadata chunk)) \<noteq> None \<Longrightarrow> \<exists>v. generateVectorId P now chunk = Some v"
  by (auto simp: generateVectorId_def Let_def)

lemma generateVectorId_wellformed:
  assumes "generateVectorId P now chunk = Some v"
  shows "v \<noteq> [] \<and> length v \<le> 512 \<and>
         (\<forall>c \<in> set v. is_alnum c \<or> c = CHR ''_'' \<or> c = CHR ''-'')"
  using assms
  by (auto simp: generateVectorId_def Let_def split: option.splits if_splits)

lemma embed_batch_Some:
  "\<forall>c \<in> set batch. P (m_url (c_metadata c)) \<noteq> None \<Longrightarrow>
   \<exists>es. embed_batch P clock reply_data i index batch acc = Some es"
proof (induction batch arbitrary: index acc)
  case Nil
  then show ?case by simp
next
  case (Cons chunk rest)
  obtain v where v: "generateVectorId P (clock (i + index)) chunk = Some v"
    using generateVectorId_Some [of P chunk] Cons.prems by auto
  from Cons.IH [of "index + 1"] Cons.prems
  have IH: "\<And>acc. \<exists>es. embed_batch P clock reply_data i (index + 1) rest acc = Some es"
    by simp
  show ?case
    using v IH by (auto split: option.splits)
qed

lemma embed_loop_fails:
  assumes "i = 100 * length calls" "length calls \<le> k" "100 * k < length chunks"
    "provider k model (map c_content (take 100 (drop (100 * k) chunks))) = EmbedThrows"
  shows "snd (embed_loop P provider clock model chunks i acc calls) = Inl embeddings_failed"
  using assms
proof (induction P provider clock model chunks i acc calls rule: embed_loop.induct)
  case (1 P provider clock model chunks i embeddings calls)
  have bs: "batchSize vectorDefaultConfig = 100" by (simp add: vectorDefaultConfig_def)
  have lt: "i < length chunks" using "1.prems" by simp
  define batch where "batch = take 100 (drop i chunks)"
  show ?case
  proof (cases "provider (length calls) model (map c_content batch)")
    case EmbedThrows
    then show ?thesis
      using lt by (subst embed_loop.simps) (simp add: bs batch_def Let_def)
  next
    case (EmbedData reply_data)
    have ne: "length calls \<noteq> k"
      using EmbedData "1.prems"(1,4) by (auto simp: batch_def)
    show ?thesis
    proof (cases "embed_batch P clock reply_data i 0 batch embeddings")
      case None
      with EmbedData show ?thesis
        using lt by (subst embed_loop.simps) (simp add: bs batch_def Let_def)
    next
      case (Some embeddings')
      have "snd (embed_loop P provider clock model chunks (i + batchSize vectorDefaultConfig)
                  embeddings' (calls @ [map c_content batch])) = Inl embeddings_failed"
        using "1.IH" [OF lt _ _ _ _, of batch "map c_content batch" reply_data embeddings']
          EmbedData Some "1.prems" ne
        by (simp add: bs batch_def)
      with EmbedData Some show ?thesis
        using lt by (subst embed_loop.simps) (simp add: bs batch_def Let_def)
    qed
  qed
qed

lemma embed_loop_150:
  assumes len: "length chunks = 150"
    and parse: "\<forall>c \<in> set chunks. P (m_url (c_metadata c)) \<noteq> None"
    and first: "provider 0 model (map c_content (take 100 chunks)) \<noteq> EmbedThrows"
  shows "fst (embed_loop P provider clock model chunks 0 [] []) =
           [map c_content (take 100 chunks), map c_content (drop 100 chunks)]"
proof -
  have bs: "batchSize vectorDefaultConfig = 100" by (simp add: vectorDefaultConfig_def)
  from first obtain d0 where d0: "provider 0 model (map c_content (take 100 chunks)) = EmbedData d0"
    by (cases "provider 0 model (map c_content (take 100 chunks))") auto
  have "\<forall>c \<in> set (take 100 chunks). P (m_url (c_metadata c)) \<noteq> None"
    using parse by (auto dest: in_set_takeD)
  from embed_batch_Some [OF this] obtain e1 where
    e1: "embed_batch P clock d0 0 0 (take 100 chunks) [] = Some e1" by blast
  have step1: "embed_loop P provider clock model chunks 0 [] [] =
      embed_loop P provider clock model chunks 100 e1 [map c_content (take 100 chunks)]"
    using len d0 e1 by (subst embed_loop.simps) (simp add: bs Let_def)
  have t2: "take 100 (drop 100 chunks) = drop 100 chunks"
    using len by simp
  have "\<forall>c \<in> set (drop 100 chunks). P (m_url (c_metadata c)) \<noteq> None"
    using parse by (auto dest: in_set_dropD)
  from embed_batch_Some [OF this] have
    e2: "\<And>d. \<exists>es. embed_batch P clock d 100 0 (drop 100 chunks) e1 = Some es" by blast
  have stop: "\<And>es cs. embed_loop P provider clock model chunks 200 es cs = (cs, Inr es)"
    using len by (subst embed_loop.simps) simp
  have "fst (embed_loop P provider clock model chunks 100 e1 [map c_content (take 100 chunks)]) =
      [map c_content (take 100 chunks), map c_content (drop 100 chunks)]"
  proof (cases "provider 1 model (map c_content (drop 100 chunks))")
    case EmbedThrows
    then show ?thesis
      using len by (subst embed_loop.simps) (simp add: bs Let_def t2)
  next
    case (EmbedData d1)
    from e2 [of d1] obtain es where "embed_batch P clock d1 100 0 (drop 100 chunks) e1 = Some es"
      by blast
    with EmbedData show ?thesis
      using len by (subst embed_loop.simps) (simp add: bs Let_def t2 stop)
  qed
  with step1 show ?thesis by simp
qed

lemma crawlAndStore_embedding_fails:
  assumes "processIntoChunks P pgs
             (or_default (req_chunkSize request) (cfg_chunkSize vectorDefaultConfig))
             (or_default (req_chunkOverlap request) (cfg_chunkOverlap vectorDefaultConfig)) =
           Some chunks"
    and "chunks \<noteq> []"
    and "snd (generateEmbeddings P env provider clock
                (embeddingModel vectorDefaultConfig) chunks) = Inl e"
  shows "crawlAndStore P env provider upsert clock pgs request = Some ([], Inl e)"
  using assms by (simp add: crawlAndStore_def)

lemma generateEmbeddings_fails:
  assumes "initializeOpenAI env = Inr ()" "100 * k < length chunks"
    "provider k model (map c_content (take 100 (drop (100 * k) chunks))) = EmbedThrows"
  shows "snd (generateEmbeddings P env provider clock model chunks) = Inl embeddings_failed"
  using assms embed_loop_fails [of 0 "[]" k chunks provider model P clock "[]"]
  by (simp add: generateEmbeddings_def)

lemma example_chunk_url: "m_url (c_metadata (example_chunk u)) = u"
  by (simp add: example_chunk_def make_chunk_def example_page_def Let_def)

lemma example_timestamp: "last8 (string_of_nat 1730505600000) = ''05600000''"
  by (simp add: string_of_nat.simps last8_def)

lemma example_vector_id_page1:
  "generateVectorId example_parser 1730505600000 (example_chunk ''http://docs.test/guide?page=1'') =
     Some ''docs_test_guide_chunk_0_05600000''"
  by (simp add: generateVectorId_def example_chunk_def make_chunk_def example_page_def
        example_parser_def Let_def example_timestamp string_of_nat_0 is_alnum_def)

lemma example_vector_id_page2:
  "generateVectorId example_parser 1730505600000 (example_chunk ''http://docs.test/guide?page=2'') =
     Some ''docs_test_guide_chunk_0_05600000''"
  by (simp add: generateVectorId_def example_chunk_def make_chunk_def example_page_def
        example_parser_def Let_def example_timestamp string_of_nat_0 is_alnum_def)

section \<open>Properties of the retriever and the answer synthesizer\<close>

lemma performVectorSearch_error:
  "performVectorSearch prov request = Inl e \<Longrightarrow> e = search_failed"
  by (auto simp: performVectorSearch_def split: if_splits sum.splits index_reply.splits
        option.splits)

lemma performVectorSearch_no_list:
  assumes "clients_ok prov" "embed_query prov (rq_query request) = QueryEmbedData (Some v)"
    "index_query prov (truthy_str (rq_namespace request)) (search_params request v) =
       IndexResponse None"
  shows "performVectorSearch prov request = Inl search_failed"
  using assms by (simp add: performVectorSearch_def generateQueryEmbedding_def)

lemma performVectorSearch_list:
  assumes "clients_ok prov" "embed_query prov (rq_query request) = QueryEmbedData (Some v)"
    "index_query prov (truthy_str (rq_namespace request)) (search_params request v) =
       IndexResponse (Some ms)"
  shows "performVectorSearch prov request =
           Inr \<lparr> matches = map to_match ms, sr_query = rq_query request,
                 sr_namespace = rq_namespace request, totalMatches = length ms \<rparr>"
  using assms by (simp add: performVectorSearch_def generateQueryEmbedding_def)

lemma clamp_bounds: "0 \<le> min (max (x :: real) 0) 100 \<and> min (max x 0) 100 \<le> 100"
  by simp

lemma generateRAGAnswer_Inr:
  assumes "generateRAGAnswer prov request = Inr r"
  shows "\<exists>resp. performVectorSearch prov (search_request_of request) = Inr resp \<and>
           sources r = matches resp \<and> matches resp \<noteq> [] \<and>
           filter has_content (matches resp) \<noteq> [] \<and>
           confidence r =
             min (max (sum_list (map match_score (matches resp)) /
                         real (length (matches resp)) * 100) 0) 100"
proof (cases "performVectorSearch prov (search_request_of request)")
  case (Inl e)
  with assms show ?thesis
    by (simp add: generateRAGAnswer_def split: if_splits)
next
  case (Inr resp)
  with assms show ?thesis
    by (auto simp: generateRAGAnswer_def Let_def
          split: if_splits completion_reply.splits option.splits)
qed

lemma example_answer:
  "generateRAGAnswer (example_providers (IndexResponse (Some example_matches))) example_rag_request =
     Inr \<lparr> answer = ''See (Source 1).'',
           sources = map to_match example_matches,
           ans_query = ''how to start'', ans_namespace = ''docs'', confidence = 50 \<rparr>"
  by (simp add: generateRAGAnswer_def performVectorSearch_def generateQueryEmbedding_def
        example_providers_def example_rag_request_def search_request_of_def example_matches_def
        to_match_def has_content_def example_rag_metadata_def Let_def)

section \<open>Claims about the chunker\<close>



text \<open>
  C2, as amended. The chunks of a page are the chunks of its title, two line feeds and its
  content. With \<open>chunkOverlap < chunkSize\<close> the text is split at white space and a window of
  \<open>chunkSize\<close> words slides by \<open>chunkSize - chunkOverlap\<close> from 0 while its start is inside
  the words; every window is joined with single spaces and trimmed, and the blank ones are
  dropped. A text of 2500 words, none empty, with \<open>chunkSize = 1000\<close> and
  \<open>chunkOverlap = 200\<close> gives four chunks, of 1000, 1000, 900 and 100 words.
\<close>

theorem chunkText_sliding_windows:
  "(P (url page) \<noteq> None \<longrightarrow>
      map_option (map c_content) (processIntoChunks P [page] chunkSize overlap) =
        chunkText (title page @ [CHR 0x0A, CHR 0x0A] @ content page) chunkSize overlap) \<and>
   (overlap < chunkSize \<longrightarrow>
      chunkText doc chunkSize overlap =
        Some (let chunks = window_chunks (split_ws doc) chunkSize
                             (window_starts 0 (int (length (split_ws doc))) (chunkSize - overlap))
              in if chunks = [] then [doc] else chunks)) \<and>
   (length (split_ws doc) = 2500 \<and> (\<forall>w \<in> set (split_ws doc). w \<noteq> []) \<longrightarrow>
      (\<exists>c1 c2 c3 c4. chunkText doc 1000 200 = Some [c1, c2, c3, c4] \<and>
         map (length \<circ> split_ws) [c1, c2, c3, c4] = [1000, 1000, 900, 100]))"
proof (intro conjI impI)
  assume "P (url page) \<noteq> None"
  then show "map_option (map c_content) (processIntoChunks P [page] chunkSize overlap) =
        chunkText (title page @ [CHR 0x0A, CHR 0x0A] @ content page) chunkSize overlap"
    using page_chunks_contents [of P page chunkSize overlap]
    by (cases "page_chunks P page chunkSize overlap") (simp_all add: processIntoChunks_def)
next
  assume "overlap < chunkSize"
  then show "chunkText doc chunkSize overlap =
        Some (let chunks = window_chunks (split_ws doc) chunkSize
                             (window_starts 0 (int (length (split_ws doc))) (chunkSize - overlap))
              in if chunks = [] then [doc] else chunks)"
    by (rule chunkText_windows)
next
  assume "length (split_ws doc) = 2500 \<and> (\<forall>w \<in> set (split_ws doc). w \<noteq> [])"
  then show "\<exists>c1 c2 c3 c4. chunkText doc 1000 200 = Some [c1, c2, c3, c4] \<and>
         map (length \<circ> split_ws) [c1, c2, c3, c4] = [1000, 1000, 900, 100]"
    using scenario_B_chunks [of doc] by simp
qed

theorem chunkText_sliding_windows_witness:
  "example_parser (url (example_page ''http://docs.test/guide'')) \<noteq> None \<and>
   (200::int) < 1000 \<and>
   length (split_ws page2500) = 2500 \<and> [] \<notin> set (split_ws page2500) \<and>
   map_option (map c_content)
     (processIntoChunks example_parser [example_page ''http://docs.test/guide''] 1000 200) =
     chunkText (title (example_page ''http://docs.test/guide'') @ [CHR 0x0A, CHR 0x0A] @
                content (example_page ''http://docs.test/guide'')) 1000 200 \<and>
   (\<exists>c1 c2 c3 c4. chunkText page2500 1000 200 = Some [c1, c2, c3, c4] \<and>
      map (length \<circ> split_ws) [c1, c2, c3, c4] = [1000, 1000, 900, 100])"
proof -
  have h1: "example_parser (url (example_page ''http://docs.test/guide'')) \<noteq> None"
    using example_parser_http by (simp add: example_page_def)
  have h3: "length (split_ws page2500) = 2500 \<and> (\<forall>w \<in> set (split_ws page2500). w \<noteq> [])"
    by (simp add: split_ws_page2500)
  note inst = chunkText_sliding_windows
          [of example_parser "example_page ''http://docs.test/guide''" 1000 200 page2500]
  from inst h1 have c1: "map_option (map c_content)
     (processIntoChunks example_parser [example_page ''http://docs.test/guide''] 1000 200) =
     chunkText (title (example_page ''http://docs.test/guide'') @ [CHR 0x0A, CHR 0x0A] @
                content (example_page ''http://docs.test/guide'')) 1000 200"
    by blast
  from inst h3 have c3: "\<exists>c1 c2 c3 c4. chunkText page2500 1000 200 = Some [c1, c2, c3, c4] \<and>
      map (length \<circ> split_ws) [c1, c2, c3, c4] = [1000, 1000, 900, 100]"
    by blast
  have h2: "(200::int) < 1000" by simp
  have h3': "[] \<notin> set (split_ws page2500)"
    by (simp add: split_ws_page2500)
  from h1 h2 h3 h3' c1 c3 show ?thesis by blast
qed

theorem scenario_B_counterexample:
  "map_option (map (length \<circ> split_ws)) (chunkText page2500 1000 200) =
     Some [1000, 1000, 900, 100] \<and>
   map_option (map (length \<circ> split_ws)) (chunkText page2500 1000 200) \<noteq>
     Some [1000, 1000, 700]"
  using scenario_B_chunks [of page2500] split_ws_page2500
  by simp

section \<open>Claims about the crawler\<close>

text \<open>
  C1. The claim is that a crawl never returns more than \<open>maxPages\<close> pages. The guard of the
  enqueue step counts the collected pages and the queue, not the pages of the batch that
  is being settled, so the queue can hold more than the budget that is left. On the site
  \<open>overrun_site\<close> with \<open>maxPages = 4\<close> the crawl returns five pages.
\<close>

theorem crawl_exceeds_maxPages:
  "map_option (map_sum id (\<lambda>r. length (pages r)))
     (crawlDocumentation example_parser (example_web overrun_site)
        (example_request ''http://docs.test/'' (Some 4))) = Some (Inr 5)"
proof -
  define step where
    "step = crawl_step example_parser (example_web overrun_site) (example_config (Some 4))"
  define st0 where "st0 = initial_state ''http://docs.test/''"
  have c0: "crawl_continues (example_config (Some 4)) st0"
    unfolding st0_def by code_simp
  have c1: "crawl_continues (example_config (Some 4)) (step st0)"
    unfolding st0_def step_def by code_simp
  have c2: "crawl_continues (example_config (Some 4)) (step (step st0))"
    unfolding st0_def step_def by code_simp
  have c3: "\<not> crawl_continues (example_config (Some 4)) (step (step (step st0)))"
    unfolding st0_def step_def by code_simp
  have loop: "crawl_loop example_parser (example_web overrun_site) (example_config (Some 4)) st0 =
      Some (step (step (step st0)))"
    using c0 c1 c2 c3 by (simp add: crawl_loop_unroll step_def)
  have "map_sum id (\<lambda>r. length (pages r)) (summarize example_parser (step (step (step st0)))) = Inr 5"
    unfolding st0_def step_def by code_simp
  with loop show ?thesis
    by (simp add: example_crawl st0_def)
qed






text \<open>
  C10. A crawl that returns no page is a success with \<open>totalPages = 0\<close> and a \<open>crawlDepth\<close>
  of \<open>-Infinity\<close>; and when the page budget is positive and the request for the seed fails
  or answers with something that is not HTML, the crawl returns exactly that result, with
  the entry of the failed request as its error list.
\<close>

theorem crawl_without_pages:
  "(crawlDocumentation P W request = Some (Inr r) \<and> pages r = [] \<longrightarrow>
      success r \<and> totalPages (summary r) = 0 \<and> crawlDepth (summary r) = MinusInfinity \<and>
      message r = ''Successfully crawled 0 pages'') \<and>
   (P (req_url request) = Some u0 \<and> P (strip_fragment (href u0)) = Some b \<and>
    0 < maxPages (mergeConfig request) \<and> (\<forall>doc. W (strip_fragment (href u0)) \<noteq> Html doc) \<longrightarrow>
      crawlDocumentation P W request =
        Some (Inr \<lparr> success = True, message = ''Successfully crawled 0 pages'', pages = [],
                    summary = \<lparr> totalPages = 0, totalWords = 0, crawlDepth = MinusInfinity,
                      uniqueDomains = [],
                      summary_errors =
                        (case W (strip_fragment (href u0)) of
                           Failed m s \<Rightarrow> [error_entry (strip_fragment (href u0)) m s]
                         | _ \<Rightarrow> []) \<rparr> \<rparr>))"
proof (rule conjI; rule impI)
  assume a: "crawlDocumentation P W request = Some (Inr r) \<and> pages r = []"
  then obtain st where "summarize P st = Inr r"
    using crawlDocumentation_Inr [of P W request r] by blast
  from summarize_Inr [OF this] a
  show "success r \<and> totalPages (summary r) = 0 \<and> crawlDepth (summary r) = MinusInfinity \<and>
      message r = ''Successfully crawled 0 pages''"
    by (simp add: math_max_def string_of_nat_0)
next
  assume a: "P (req_url request) = Some u0 \<and> P (strip_fragment (href u0)) = Some b \<and>
    0 < maxPages (mergeConfig request) \<and> (\<forall>doc. W (strip_fragment (href u0)) \<noteq> Html doc)"
  define base where "base = strip_fragment (href u0)"
  define cfg where "cfg = (mergeConfig request) \<lparr> allowedDomains := [hostname b] \<rparr>"
  define errs where "errs = (case W base of Failed m s \<Rightarrow> [error_entry base m s] | _ \<Rightarrow> [])"
  have mc: "maxConcurrent cfg = 3" and mp: "0 < maxPages cfg"
    using a by (simp_all add: cfg_def mergeConfig_fixed)
  have c0: "crawl_continues cfg (initial_state base)"
    using mp by (simp add: crawl_continues_def initial_state_def)
  have nohtml: "\<forall>doc. W base \<noteq> Html doc" using a by (simp add: base_def)
  have step: "crawl_step P W cfg (initial_state base) =
      \<lparr> visitedUrls = {base}, crawledPages = [], errors = errs, urlQueue = [] \<rparr>"
    using nohtml
    by (cases "W base")
       (simp_all add: crawl_step_def initial_state_def mc crawlSinglePage_def errs_def)
  have c1: "\<not> crawl_continues cfg (crawl_step P W cfg (initial_state base))"
    by (simp add: step crawl_continues_def)
  have loop: "crawl_loop P W cfg (initial_state base) =
      Some \<lparr> visitedUrls = {base}, crawledPages = [], errors = errs, urlQueue = [] \<rparr>"
    using c0 c1 by (simp add: crawl_loop_unroll step)
  have "crawlDocumentation P W request =
      map_option (summarize P) (crawl_loop P W cfg (initial_state base))"
    using crawlDocumentation_unfold [of P request u0 b W] a by (simp add: cfg_def base_def)
  then have "crawlDocumentation P W request =
        Some (Inr \<lparr> success = True, message = ''Successfully crawled 0 pages'', pages = [],
                    summary = \<lparr> totalPages = 0, totalWords = 0, crawlDepth = MinusInfinity,
                      uniqueDomains = [], summary_errors = errs \<rparr> \<rparr>)"
    by (simp add: loop summarize_def math_max_def js_unique_def string_of_nat_0)
  then show "crawlDocumentation P W request =
        Some (Inr \<lparr> success = True, message = ''Successfully crawled 0 pages'', pages = [],
                    summary = \<lparr> totalPages = 0, totalWords = 0, crawlDepth = MinusInfinity,
                      uniqueDomains = [],
                      summary_errors =
                        (case W (strip_fragment (href u0)) of
                           Failed m s \<Rightarrow> [error_entry (strip_fragment (href u0)) m s]
                         | _ \<Rightarrow> []) \<rparr> \<rparr>)"
    unfolding errs_def base_def .
qed

theorem crawl_without_pages_witness:
  "example_parser (req_url (example_request ''http://docs.test/'' None)) =
     Some \<lparr> href = ''http://docs.test/'', hostname = ''docs.test'', pathname = ''/'',
            search = [], hash = [] \<rparr> \<and>
   0 < maxPages (mergeConfig (example_request ''http://docs.test/'' None)) \<and>
   (\<forall>doc. example_web [] ''http://docs.test/'' \<noteq> Html doc) \<and>
   crawlDocumentation example_parser (example_web []) (example_request ''http://docs.test/'' None) =
     Some (Inr \<lparr> success = True, message = ''Successfully crawled 0 pages'', pages = [],
                 summary = \<lparr> totalPages = 0, totalWords = 0, crawlDepth = MinusInfinity,
                   uniqueDomains = [],
                   summary_errors =
                     [error_entry ''http://docs.test/''
                        ''Request failed with status code 404'' (Some 404)] \<rparr> \<rparr>)"
proof -
  define u0 where "u0 = \<lparr> href = ''http://docs.test/'', hostname = ''docs.test'',
      pathname = ''/'', search = [], hash = [] \<rparr>"
  have sf: "strip_fragment (href u0) = ''http://docs.test/''"
    by (simp add: strip_fragment_def u0_def)
  have h1: "example_parser (req_url (example_request ''http://docs.test/'' None)) = Some u0"
    by (simp add: example_request_def example_seed u0_def)
  have h2: "example_parser (strip_fragment (href u0)) = Some u0"
    unfolding sf by (simp add: example_seed u0_def)
  have h3: "0 < maxPages (mergeConfig (example_request ''http://docs.test/'' None))"
    by (simp add: mergeConfig_def example_request_def defaultConfig_def or_default_def)
  have h4: "\<forall>doc. example_web [] (strip_fragment (href u0)) \<noteq> Html doc"
    by (simp add: example_web_def)
  note inst = crawl_without_pages
    [of example_parser "example_web []" "example_request ''http://docs.test/'' None" _ u0 u0]
  from inst h1 h2 h3 h4 have
    "crawlDocumentation example_parser (example_web []) (example_request ''http://docs.test/'' None) =
        Some (Inr \<lparr> success = True, message = ''Successfully crawled 0 pages'', pages = [],
                    summary = \<lparr> totalPages = 0, totalWords = 0, crawlDepth = MinusInfinity,
                      uniqueDomains = [],
                      summary_errors =
                        (case example_web [] (strip_fragment (href u0)) of
                           Failed m s \<Rightarrow> [error_entry (strip_fragment (href u0)) m s]
                         | _ \<Rightarrow> []) \<rparr> \<rparr>)"
    by blast
  with h1 h3 h4 show ?thesis
    by (simp add: sf example_web_def u0_def strip_fragment_def)
qed

section \<open>Claims about the embedder\<close>

text \<open>
  C5. The chunks are sent to the provider in batches of 100, in their order: for 150 chunks
  whose first call is answered there are two calls, with the first 100 and the last 50
  contents. If the call for any batch throws, \<open>generateEmbeddings\<close> throws \<open>Failed to generate
  embeddings\<close>, so it returns no embeddings at all; and when it throws, \<open>crawlAndStore\<close> throws
  the same error and has stored nothing.
\<close>

theorem embedding_batches_fail_fast:
  "(length chunks = 150 \<and> initializeOpenAI env = Inr () \<and>
    (\<forall>c \<in> set chunks. P (m_url (c_metadata c)) \<noteq> None) \<and>
    provider 0 model (map c_content (take 100 chunks)) \<noteq> EmbedThrows \<longrightarrow>
      fst (generateEmbeddings P env provider clock model chunks) =
        [map c_content (take 100 chunks), map c_content (drop 100 chunks)] \<and>
      map length (fst (generateEmbeddings P env provider clock model chunks)) = [100, 50]) \<and>
   (initializeOpenAI env = Inr () \<and> 100 * k < length chunks \<and>
    provider k model (map c_content (take 100 (drop (100 * k) chunks))) = EmbedThrows \<longrightarrow>
      snd (generateEmbeddings P env provider clock model chunks) =
        Inl (AppError ''Failed to generate embeddings'' 500)) \<and>
   (processIntoChunks P pgs
      (or_default (req_chunkSize request) (cfg_chunkSize vectorDefaultConfig))
      (or_default (req_chunkOverlap request) (cfg_chunkOverlap vectorDefaultConfig)) =
      Some chunks \<and> chunks \<noteq> [] \<and>
    snd (generateEmbeddings P env provider clock (embeddingModel vectorDefaultConfig) chunks) =
      Inl e \<longrightarrow>
      crawlAndStore P env provider upsert clock pgs request = Some ([], Inl e))"
proof (intro conjI; rule impI)
  assume a: "length chunks = 150 \<and> initializeOpenAI env = Inr () \<and>
    (\<forall>c \<in> set chunks. P (m_url (c_metadata c)) \<noteq> None) \<and>
    provider 0 model (map c_content (take 100 chunks)) \<noteq> EmbedThrows"
  then have calls: "fst (generateEmbeddings P env provider clock model chunks) =
        [map c_content (take 100 chunks), map c_content (drop 100 chunks)]"
    using embed_loop_150 [of chunks P provider model clock]
    by (simp add: generateEmbeddings_def)
  with a show "fst (generateEmbeddings P env provider clock model chunks) =
        [map c_content (take 100 chunks), map c_content (drop 100 chunks)] \<and>
      map length (fst (generateEmbeddings P env provider clock model chunks)) = [100, 50]"
    by simp
next
  assume "initializeOpenAI env = Inr () \<and> 100 * k < length chunks \<and>
    provider k model (map c_content (take 100 (drop (100 * k) chunks))) = EmbedThrows"
  then show "snd (generateEmbeddings P env provider clock model chunks) =
        Inl (AppError ''Failed to generate embeddings'' 500)"
    using generateEmbeddings_fails [of env k chunks provider model P clock]
    by (simp add: embeddings_failed_def)
next
  assume "processIntoChunks P pgs
      (or_default (req_chunkSize request) (cfg_chunkSize vectorDefaultConfig))
      (or_default (req_chunkOverlap request) (cfg_chunkOverlap vectorDefaultConfig)) =
      Some chunks \<and> chunks \<noteq> [] \<and>
    snd (generateEmbeddings P env provider clock (embeddingModel vectorDefaultConfig) chunks) =
      Inl e"
  then show "crawlAndStore P env provider upsert clock pgs request = Some ([], Inl e)"
    using crawlAndStore_embedding_fails by blast
qed

theorem embedding_batches_fail_fast_witness:
  "length (replicate 150 (example_chunk ''http://docs.test/guide'')) = 150 \<and>
   initializeOpenAI example_env = Inr () \<and>
   fails_from 1 0 ''text-embedding-3-small''
     (map c_content (take 100 (replicate 150 (example_chunk ''http://docs.test/guide'')))) \<noteq>
     EmbedThrows \<and>
   fails_from 1 1 ''text-embedding-3-small''
     (map c_content (take 100 (drop (100 * 1)
        (replicate 150 (example_chunk ''http://docs.test/guide''))))) = EmbedThrows \<and>
   map length (fst (generateEmbeddings example_parser example_env (fails_from 1) (\<lambda>_. 0)
     ''text-embedding-3-small'' (replicate 150 (example_chunk ''http://docs.test/guide'')))) =
     [100, 50] \<and>
   snd (generateEmbeddings example_parser example_env (fails_from 1) (\<lambda>_. 0)
     ''text-embedding-3-small'' (replicate 150 (example_chunk ''http://docs.test/guide''))) =
     Inl (AppError ''Failed to generate embeddings'' 500) \<and>
   crawlAndStore example_parser example_env (fails_from 0) (\<lambda>_ _ _. True) (\<lambda>_. 0)
     [example_page ''http://docs.test/guide''] example_vector_request =
     Some ([], Inl (AppError ''Failed to generate embeddings'' 500))"
proof -
  define chunks where "chunks = replicate 150 (example_chunk ''http://docs.test/guide'')"
  have h1: "length chunks = 150" by (simp add: chunks_def)
  have h2: "initializeOpenAI example_env = Inr ()"
    by (simp add: initializeOpenAI_def example_env_def)
  have h3: "\<forall>c \<in> set chunks. example_parser (m_url (c_metadata c)) \<noteq> None"
    using example_parser_http by (simp add: chunks_def example_chunk_url)
  have h4: "fails_from 1 0 ''text-embedding-3-small'' (map c_content (take 100 chunks)) \<noteq> EmbedThrows"
    by (simp add: fails_from_def)
  have h5: "fails_from 1 1 ''text-embedding-3-small''
     (map c_content (take 100 (drop (100 * 1) chunks))) = EmbedThrows"
    by (simp add: fails_from_def)
  have h6: "100 * 1 < length chunks" by (simp add: chunks_def)
  note inst = embedding_batches_fail_fast
    [of chunks example_env example_parser "fails_from 1" "''text-embedding-3-small''" "\<lambda>_. 0" 1]
  from inst h1 h2 h3 h4 have c1:
    "map length (fst (generateEmbeddings example_parser example_env (fails_from 1) (\<lambda>_. 0)
       ''text-embedding-3-small'' chunks)) = [100, 50]"
    by blast
  from inst h2 h5 h6 have c2:
    "snd (generateEmbeddings example_parser example_env (fails_from 1) (\<lambda>_. 0)
       ''text-embedding-3-small'' chunks) = Inl (AppError ''Failed to generate embeddings'' 500)"
    by blast
  obtain cs where cs: "processIntoChunks example_parser [example_page ''http://docs.test/guide'']
        1000 200 = Some cs"
      "\<forall>p \<in> set [example_page ''http://docs.test/guide'']. example_parser (url p) \<noteq> None \<longrightarrow>
         (\<exists>c \<in> set cs. m_url (c_metadata c) = url p)"
    using processIntoChunks_from_total
      [of 200 1000 example_parser "[example_page ''http://docs.test/guide'']" "[]"]
    by (auto simp: processIntoChunks_def)
  have ne: "cs \<noteq> []"
    using cs(2) example_parser_http by (auto simp: example_page_def)
  have pc: "processIntoChunks example_parser [example_page ''http://docs.test/guide'']
      (or_default (req_chunkSize example_vector_request) (cfg_chunkSize vectorDefaultConfig))
      (or_default (req_chunkOverlap example_vector_request) (cfg_chunkOverlap vectorDefaultConfig)) =
      Some cs"
    using cs(1) by (simp add: example_vector_request_def or_default_def vectorDefaultConfig_def)
  have "fails_from 0 0 (embeddingModel vectorDefaultConfig)
      (map c_content (take 100 (drop (100 * 0) cs))) = EmbedThrows"
    by (simp add: fails_from_def)
  with generateEmbeddings_fails [of example_env 0 cs "fails_from 0"
      "embeddingModel vectorDefaultConfig" example_parser "\<lambda>_. 0"] h2 ne
  have gf: "snd (generateEmbeddings example_parser example_env (fails_from 0) (\<lambda>_. 0)
      (embeddingModel vectorDefaultConfig) cs) = Inl embeddings_failed"
    by simp
  from embedding_batches_fail_fast
    [of cs example_env example_parser "fails_from 0" _ "\<lambda>_. 0" _
       "[example_page ''http://docs.test/guide'']" example_vector_request embeddings_failed
       "\<lambda>_ _ _. True"]
    pc ne gf
  have c3: "crawlAndStore example_parser example_env (fails_from 0) (\<lambda>_ _ _. True) (\<lambda>_. 0)
     [example_page ''http://docs.test/guide''] example_vector_request =
     Some ([], Inl embeddings_failed)"
    by blast
  from h1 h2 h4 h5 c1 c2 c3 show ?thesis
    unfolding chunks_def embeddings_failed_def by blast
qed

text \<open>
  C9. The claim is that the ids of a batch are unique. The id is made of the host name, the
  path and the chunk index of a chunk and of the last eight digits of the clock, so two
  pages that differ in their query string only, handled within the same millisecond, get
  the same id for their chunks of the same index.
\<close>

theorem vector_ids_collide:
  "example_chunk ''http://docs.test/guide?page=1'' \<noteq>
     example_chunk ''http://docs.test/guide?page=2'' \<and>
   map_sum id (map v_id)
     (snd (generateEmbeddings example_parser example_env (fails_from 1) (\<lambda>_. 1730505600000)
        ''text-embedding-3-small''
        [example_chunk ''http://docs.test/guide?page=1'',
         example_chunk ''http://docs.test/guide?page=2''])) =
     Inr [''docs_test_guide_chunk_0_05600000'', ''docs_test_guide_chunk_0_05600000'']"
proof -
  have ne: "example_chunk ''http://docs.test/guide?page=1'' \<noteq>
     example_chunk ''http://docs.test/guide?page=2''"
    by (simp add: example_chunk_def make_chunk_def example_page_def Let_def)
  have "map_sum id (map v_id)
     (snd (generateEmbeddings example_parser example_env (fails_from 1) (\<lambda>_. 1730505600000)
        ''text-embedding-3-small''
        [example_chunk ''http://docs.test/guide?page=1'',
         example_chunk ''http://docs.test/guide?page=2''])) =
     Inr [''docs_test_guide_chunk_0_05600000'', ''docs_test_guide_chunk_0_05600000'']"
    by (simp add: generateEmbeddings_def initializeOpenAI_def example_env_def embed_loop.simps
          vectorDefaultConfig_def fails_from_def Let_def example_vector_id_page1 example_vector_id_page2)
  with ne show ?thesis by simp
qed

section \<open>Claims about the retriever and the answer synthesizer\<close>

text \<open>
  C7, as amended. When the index answers without a list of matches, \<open>performVectorSearch\<close>
  throws \<open>Failed to perform vector search\<close> with status 500, which is the only error it ever
  throws; when the index answers with an empty list, it returns a result with no match and
  \<open>totalMatches = 0\<close>.
\<close>

theorem search_without_match_list:
  "(clients_ok prov \<and> embed_query prov (rq_query request) = QueryEmbedData (Some v) \<and>
    index_query prov (truthy_str (rq_namespace request)) (search_params request v) =
      IndexResponse None \<longrightarrow>
      performVectorSearch prov request =
        Inl (AppError ''Failed to perform vector search'' 500)) \<and>
   (clients_ok prov \<and> embed_query prov (rq_query request) = QueryEmbedData (Some v) \<and>
    index_query prov (truthy_str (rq_namespace request)) (search_params request v) =
      IndexResponse (Some []) \<longrightarrow>
      performVectorSearch prov request =
        Inr \<lparr> matches = [], sr_query = rq_query request,
              sr_namespace = rq_namespace request, totalMatches = 0 \<rparr>) \<and>
   (performVectorSearch prov request = Inl e \<longrightarrow>
      e = AppError ''Failed to perform vector search'' 500)"
  using performVectorSearch_no_list [of prov request v]
    performVectorSearch_list [of prov request v "[]"]
    performVectorSearch_error [of prov request e]
  by (simp add: search_failed_def)

theorem search_without_match_list_witness:
  "clients_ok (example_providers (IndexResponse None)) \<and>
   performVectorSearch (example_providers (IndexResponse None)) example_rag_request =
     Inl (AppError ''Failed to perform vector search'' 500) \<and>
   performVectorSearch (example_providers (IndexResponse (Some []))) example_rag_request =
     Inr \<lparr> matches = [], sr_query = rq_query example_rag_request,
           sr_namespace = rq_namespace example_rag_request, totalMatches = 0 \<rparr>"
proof -
  have h1: "clients_ok (example_providers reply)" for reply
    by (simp add: example_providers_def)
  have h2: "embed_query (example_providers reply) (rq_query example_rag_request) =
      QueryEmbedData (Some [1 / 2, 1 / 4])" for reply
    by (simp add: example_providers_def)
  have h3: "index_query (example_providers reply) (truthy_str (rq_namespace example_rag_request))
      (search_params example_rag_request [1 / 2, 1 / 4]) = reply" for reply
    by (simp add: example_providers_def)
  from search_without_match_list
      [of "example_providers (IndexResponse None)" example_rag_request "[1 / 2, 1 / 4]"]
    h1 h2 h3
  have c1: "performVectorSearch (example_providers (IndexResponse None)) example_rag_request =
     Inl (AppError ''Failed to perform vector search'' 500)"
    by blast
  from search_without_match_list
      [of "example_providers (IndexResponse (Some []))" example_rag_request "[1 / 2, 1 / 4]"]
    h1 h2 h3
  have c2: "performVectorSearch (example_providers (IndexResponse (Some []))) example_rag_request =
     Inr \<lparr> matches = [], sr_query = rq_query example_rag_request,
           sr_namespace = rq_namespace example_rag_request, totalMatches = 0 \<rparr>"
    by blast
  from h1 c1 c2 show ?thesis by blast
qed

text \<open>A missing list of matches and an index that throws give the same error, of status 500.\<close>

theorem search_error_kind_counterexample:
  "performVectorSearch (example_providers (IndexResponse None)) example_rag_request =
     Inl (AppError ''Failed to perform vector search'' 500) \<and>
   performVectorSearch (example_providers IndexThrows) example_rag_request =
     Inl (AppError ''Failed to perform vector search'' 500)"
  by (simp add: performVectorSearch_def generateQueryEmbedding_def example_providers_def
        example_rag_request_def search_failed_def)

text \<open>
  C3, as amended. Every answer that is returned has as its sources all the matches of the
  search, of which there is at least one and at least one has content, and as its
  confidence the mean score of all these matches times 100, clamped to the interval from
  0 to 100.
\<close>

theorem answer_sources_are_all_matches:
  "generateRAGAnswer prov request = Inr r \<longrightarrow>
     (\<exists>resp. performVectorSearch prov (search_request_of request) = Inr resp \<and>
        sources r = matches resp \<and> matches resp \<noteq> [] \<and>
        filter has_content (matches resp) \<noteq> [] \<and>
        confidence r =
          min (max (sum_list (map match_score (matches resp)) /
                      real (length (matches resp)) * 100) 0) 100) \<and>
     0 \<le> confidence r \<and> confidence r \<le> 100"
proof
  assume a: "generateRAGAnswer prov request = Inr r"
  from generateRAGAnswer_Inr [OF a] obtain resp where
    resp: "performVectorSearch prov (search_request_of request) = Inr resp"
      "sources r = matches resp" "matches resp \<noteq> []"
      "filter has_content (matches resp) \<noteq> []"
      "confidence r =
          min (max (sum_list (map match_score (matches resp)) /
                      real (length (matches resp)) * 100) 0) 100"
    by blast
  from resp(5) have "0 \<le> confidence r \<and> confidence r \<le> 100"
    using clamp_bounds by simp
  with resp show "(\<exists>resp. performVectorSearch prov (search_request_of request) = Inr resp \<and>
        sources r = matches resp \<and> matches resp \<noteq> [] \<and>
        filter has_content (matches resp) \<noteq> [] \<and>
        confidence r =
          min (max (sum_list (map match_score (matches resp)) /
                      real (length (matches resp)) * 100) 0) 100) \<and>
     0 \<le> confidence r \<and> confidence r \<le> 100"
    by blast
qed

theorem answer_sources_are_all_matches_witness:
  "generateRAGAnswer (example_providers (IndexResponse (Some example_matches))) example_rag_request =
     Inr \<lparr> answer = ''See (Source 1).'',
           sources = map to_match example_matches,
           ans_query = ''how to start'', ans_namespace = ''docs'', confidence = 50 \<rparr> \<and>
   (\<exists>resp. performVectorSearch (example_providers (IndexResponse (Some example_matches)))
             (search_request_of example_rag_request) = Inr resp \<and>
      map to_match example_matches = matches resp \<and> matches resp \<noteq> [] \<and>
      filter has_content (matches resp) \<noteq> [] \<and>
      (50 :: real) =
        min (max (sum_list (map match_score (matches resp)) /
                    real (length (matches resp)) * 100) 0) 100) \<and>
   (0 :: real) \<le> 50 \<and> (50 :: real) \<le> 100"
  using answer_sources_are_all_matches
      [of "example_providers (IndexResponse (Some example_matches))" example_rag_request
          "\<lparr> answer = ''See (Source 1).'', sources = map to_match example_matches,
             ans_query = ''how to start'', ans_namespace = ''docs'', confidence = 50 \<rparr>"]
    example_answer
  by simp

text \<open>With a match that has no content among the matches, the sources still hold it, and the
  confidence is 50 where the mean over the matches with content gives 90.\<close>

theorem answer_sources_counterexample:
  "map_sum id (\<lambda>r. map match_id (sources r))
     (generateRAGAnswer (example_providers (IndexResponse (Some example_matches)))
        example_rag_request) = Inr [''with-content'', ''without-content''] \<and>
   map match_id (filter has_content (map to_match example_matches)) = [''with-content''] \<and>
   map_sum id confidence
     (generateRAGAnswer (example_providers (IndexResponse (Some example_matches)))
        example_rag_request) = Inr 50 \<and>
   min (max (sum_list (map match_score (filter has_content (map to_match example_matches))) /
               real (length (filter has_content (map to_match example_matches))) * 100) 0) 100 =
     90"
  by (simp add: example_answer)
     (simp add: example_matches_def to_match_def has_content_def example_rag_metadata_def)

end
